theory Spec2Isabelle
  imports Complex_Main "HOL-Library.Multiset"
begin

section \<open>Statistical models for football betting analysis\<close>

text \<open>
  A shallow embedding of the class \<open>ModelosEstatisticos\<close> of
  \<open>modelos_estatisticos.py\<close> (the same class is repeated verbatim in
  \<open>modelo_de_analise.py\<close>).

  Numbers. Python's \<open>float\<close> and numpy's \<open>float64\<close> are modelled by \<open>real\<close>:
  every arithmetic operation is exact, so rounding, overflow and underflow are
  outside the model. The one IEEE effect the model keeps is the non-finite
  result: a numpy division by zero and scipy's \<open>pmf\<close> at a negative rate do not
  raise, they yield \<open>nan\<close> (or an infinity); such a value is \<open>None\<close> below and
  propagates through everything computed from it. Python's \<open>int\<close> is \<open>int\<close>.
\<close>

subsection \<open>Outcomes\<close>

text \<open>
  What a call can end in besides a usable value. \<open>ZeroDivisionError\<close>,
  \<open>ValueError\<close> and \<open>IndexError\<close> are the Python exceptions the code can
  raise (the last two from numpy and from list indexing). \<open>NaN\<close> is not an
  exception: the call returns normally, and the values of the returned
  dictionary are numpy \<open>nan\<close>/\<open>inf\<close>. \<open>InvalidParameter\<close> is the error named by
  the specification; no statement of the source raises it.
\<close>

datatype falha = ZeroDivisionError | ValueError | IndexError | NaN | InvalidParameter

subsection \<open>Value and staking calculator\<close>

text \<open>\<^verbatim>\<open>return probabilidade * odd - 1\<close>\<close>

definition calcular_valor_esperado :: "real \<Rightarrow> real \<Rightarrow> real" where
  "calcular_valor_esperado probabilidade odd' = probabilidade * odd' - 1"

text \<open>
  \<^verbatim>\<open>if probabilidade <= 0: return float('inf')\<close>, else \<^verbatim>\<open>1 / probabilidade\<close>.
  The infinity is \<open>None\<close>.
\<close>

definition calcular_odds_justas :: "real \<Rightarrow> real option" where
  "calcular_odds_justas probabilidade =
     (if probabilidade \<le> 0 then None else Some (1 / probabilidade))"

text \<open>
  \<^verbatim>\<open>q = 1 - probabilidade; b = odd - 1\<close>, then the Kelly quotient when
  \<^verbatim>\<open>b * probabilidade > q\<close> and \<open>0.0\<close> otherwise. Python's float division
  raises \<open>ZeroDivisionError\<close> on a zero divisor; the branch is part of the model.
\<close>

definition calcular_kelly :: "real \<Rightarrow> real \<Rightarrow> real \<Rightarrow> falha + real" where
  "calcular_kelly probabilidade odd' fracao =
     (let q = 1 - probabilidade;
          b = odd' - 1
      in if b * probabilidade > q
         then (if b = 0 then Inl ZeroDivisionError
               else (let kelly = (b * probabilidade - q) / b in Inr (kelly * fracao)))
         else Inr 0)"

subsection \<open>Scoreline distributions\<close>

text \<open>
  A scoreline is the pair (home goals, away goals). A Python \<open>dict\<close> keeps its
  keys in insertion order and the code sorts and enumerates it, so it is an
  association list; \<open>dict_set\<close> is the assignment \<^verbatim>\<open>d[k] = v\<close>: it overwrites
  in place when the key is present and appends otherwise.
\<close>

type_synonym placar = "int \<times> int"
type_synonym dict = "(placar \<times> real) list"

fun dict_set :: "('k \<times> 'v) list \<Rightarrow> 'k \<Rightarrow> 'v \<Rightarrow> ('k \<times> 'v) list" where
  "dict_set [] k v = [(k, v)]"
| "dict_set ((k', v') # d) k v =
     (if k' = k then (k, v) # d else (k', v') # dict_set d k v)"

text \<open>
  Modelled from the spec: \<open>scipy.stats.poisson.pmf\<close>, a library function that
  is not part of the repository. The specification gives the mass function
  \<open>P(k; \<lambda>) = \<lambda>\<^sup>k e\<^sup>-\<^sup>\<lambda> / k!\<close>; scipy returns \<open>0\<close> below the support and \<open>nan\<close>
  for a negative rate.
\<close>

definition poisson_pmf :: "int \<Rightarrow> real \<Rightarrow> real option" where
  "poisson_pmf k mu =
     (if mu < 0 then None
      else if k < 0 then Some 0
      else Some (mu ^ nat k * exp (- mu) / fact (nat k)))"

text \<open>
  A \<^verbatim>\<open>for\<close> loop over a list, threading the loop state; a non-finite value
  met in the body makes the final state non-finite.
\<close>

fun para_cada :: "'a list \<Rightarrow> ('a \<Rightarrow> 's \<Rightarrow> 's option) \<Rightarrow> 's \<Rightarrow> 's option" where
  "para_cada [] corpo s = Some s"
| "para_cada (x # xs) corpo s =
     (case corpo x s of None \<Rightarrow> None | Some s' \<Rightarrow> para_cada xs corpo s')"

text \<open>
  The first loop of both builders, with the expression assigned to \<^verbatim>\<open>prob\<close>
  as a parameter:
  \<^verbatim>\<open>
  probabilidades = {}; total_prob = 0
  for i in range(max_gols + 1):
      for j in range(max_gols + 1):
          prob = ...
          probabilidades[(i, j)] = prob
          total_prob += prob
  \<close>
  \<^verbatim>\<open>range(max_gols + 1)\<close> is \<open>[0..max_gols]\<close>, empty when \<open>max_gols < 0\<close>.
\<close>

definition acumular :: "(int \<Rightarrow> int \<Rightarrow> real option) \<Rightarrow> int \<Rightarrow> (dict \<times> real) option" where
  "acumular prob max_gols =
     para_cada [0..max_gols] (\<lambda>i.
       para_cada [0..max_gols] (\<lambda>j (probabilidades, total_prob).
         case prob i j of
           None \<Rightarrow> None
         | Some p \<Rightarrow> Some (dict_set probabilidades (i, j) p, total_prob + p)))
       ([], 0)"

text \<open>
  numpy's division: a zero divisor gives \<open>nan\<close> or an infinity (with a
  warning), not an exception.
\<close>

definition np_div :: "real \<Rightarrow> real \<Rightarrow> real option" where
  "np_div x y = (if y = 0 then None else Some (x / y))"

text \<open>
  \<^verbatim>\<open>for key in probabilidades: probabilidades[key] = probabilidades[key] / total_prob\<close>
\<close>

fun normalizar :: "dict \<Rightarrow> real \<Rightarrow> dict option" where
  "normalizar [] total_prob = Some []"
| "normalizar ((key, v) # d) total_prob =
     (case np_div v total_prob of
        None \<Rightarrow> None
      | Some q \<Rightarrow> (case normalizar d total_prob of
                    None \<Rightarrow> None
                  | Some d' \<Rightarrow> Some ((key, q) # d')))"

text \<open>
  \<^verbatim>\<open>sorted(probabilidades.items(), key=lambda item: item[1], reverse=True)\<close>:
  Python's sort is stable, also with \<open>reverse=True\<close> (items are ordered as if
  every comparison were reversed, and items with equal keys keep their original
  order). That is the stable sort by the negated value.
\<close>

definition ordenar :: "dict \<Rightarrow> dict" where
  "ordenar d = sort_key (\<lambda>item. - snd item) d"

text \<open>\<^verbatim>\<open>prob = poisson.pmf(i, lambda_casa) * poisson.pmf(j, lambda_visitante)\<close>\<close>

definition prob_poisson :: "real \<Rightarrow> real \<Rightarrow> int \<Rightarrow> int \<Rightarrow> real option" where
  "prob_poisson lambda_casa lambda_visitante i j =
     (case poisson_pmf i lambda_casa of
        None \<Rightarrow> None
      | Some p \<Rightarrow> (case poisson_pmf j lambda_visitante of
                    None \<Rightarrow> None
                  | Some q \<Rightarrow> Some (p * q)))"

definition calcular_probabilidades_poisson :: "real \<Rightarrow> real \<Rightarrow> int \<Rightarrow> falha + dict" where
  "calcular_probabilidades_poisson lambda_casa lambda_visitante max_gols =
     (case acumular (prob_poisson lambda_casa lambda_visitante) max_gols of
        None \<Rightarrow> Inl NaN
      | Some (probabilidades, total_prob) \<Rightarrow>
          (case normalizar probabilidades total_prob of
             None \<Rightarrow> Inl NaN
           | Some normalizadas \<Rightarrow> Inr (ordenar normalizadas)))"

text \<open>The local function \<open>tau\<close> of \<open>calcular_probabilidades_dixon_coles\<close>.\<close>

definition tau :: "int \<Rightarrow> int \<Rightarrow> real \<Rightarrow> real \<Rightarrow> real \<Rightarrow> real" where
  "tau x y lambda_x lambda_y rho =
     (if x = 0 \<and> y = 0 then 1 - lambda_x * lambda_y * rho
      else if x = 0 \<and> y = 1 then 1 + lambda_x * rho
      else if x = 1 \<and> y = 0 then 1 + lambda_y * rho
      else if x = 1 \<and> y = 1 then 1 - rho
      else 1)"

text \<open>
  \<^verbatim>\<open>prob = poisson.pmf(i, lambda_casa) * poisson.pmf(j, lambda_visitante)
          * tau(i, j, lambda_casa, lambda_visitante, rho)\<close>
\<close>

definition prob_dixon_coles :: "real \<Rightarrow> real \<Rightarrow> real \<Rightarrow> int \<Rightarrow> int \<Rightarrow> real option" where
  "prob_dixon_coles lambda_casa lambda_visitante rho i j =
     (case poisson_pmf i lambda_casa of
        None \<Rightarrow> None
      | Some p \<Rightarrow> (case poisson_pmf j lambda_visitante of
                    None \<Rightarrow> None
                  | Some q \<Rightarrow> Some (p * q * tau i j lambda_casa lambda_visitante rho)))"

definition calcular_probabilidades_dixon_coles ::
    "real \<Rightarrow> real \<Rightarrow> real \<Rightarrow> int \<Rightarrow> falha + dict" where
  "calcular_probabilidades_dixon_coles lambda_casa lambda_visitante rho max_gols =
     (case acumular (prob_dixon_coles lambda_casa lambda_visitante rho) max_gols of
        None \<Rightarrow> Inl NaN
      | Some (probabilidades, total_prob) \<Rightarrow>
          (case normalizar probabilidades total_prob of
             None \<Rightarrow> Inl NaN
           | Some normalizadas \<Rightarrow> Inr (ordenar normalizadas)))"

subsection \<open>The builders in float64 arithmetic\<close>

text \<open>
  The definitions above compute in exact arithmetic. The builders are repeated
  here with the arithmetic of the program made explicit: every operation on
  \<^verbatim>\<open>float64\<close> values yields the exact result rounded. \<open>rd x\<close> is the
  \<^verbatim>\<open>float64\<close> that the real number \<open>x\<close> rounds to, and \<open>None\<close> when the result is
  not finite (overflow; a division by zero is not finite either). With the
  rounding that changes nothing, \<open>Some\<close>, these are the definitions above.
\<close>

type_synonym arredondamento = "real \<Rightarrow> real option"

definition fl_add :: "arredondamento \<Rightarrow> real \<Rightarrow> real \<Rightarrow> real option" where
  "fl_add rd x y = rd (x + y)"

definition fl_sub :: "arredondamento \<Rightarrow> real \<Rightarrow> real \<Rightarrow> real option" where
  "fl_sub rd x y = rd (x - y)"

definition fl_mul :: "arredondamento \<Rightarrow> real \<Rightarrow> real \<Rightarrow> real option" where
  "fl_mul rd x y = rd (x * y)"

definition fl_div :: "arredondamento \<Rightarrow> real \<Rightarrow> real \<Rightarrow> real option" where
  "fl_div rd x y = (if y = 0 then None else rd (x / y))"

text \<open>
  \<^verbatim>\<open>prob = poisson.pmf(i, lambda_casa) * poisson.pmf(j, lambda_visitante)\<close>, with
  scipy's \<open>pmf\<close> as a parameter \<open>pmf_f\<close>: the \<^verbatim>\<open>float64\<close> it returns, \<open>None\<close> for
  \<open>nan\<close>.
\<close>

definition prob_poisson_fl ::
    "arredondamento \<Rightarrow> (int \<Rightarrow> real \<Rightarrow> real option) \<Rightarrow> real \<Rightarrow> real \<Rightarrow> int \<Rightarrow> int \<Rightarrow> real option" where
  "prob_poisson_fl rd pmf_f lambda_casa lambda_visitante i j =
     (case pmf_f i lambda_casa of
        None \<Rightarrow> None
      | Some p \<Rightarrow> (case pmf_f j lambda_visitante of
                    None \<Rightarrow> None
                  | Some q \<Rightarrow> fl_mul rd p q))"

text \<open>
  The local function \<open>tau\<close>; \<^verbatim>\<open>1 - lambda_x * lambda_y * rho\<close> multiplies from
  the left.
\<close>

definition tau_fl :: "arredondamento \<Rightarrow> int \<Rightarrow> int \<Rightarrow> real \<Rightarrow> real \<Rightarrow> real \<Rightarrow> real option" where
  "tau_fl rd x y lambda_x lambda_y rho =
     (if x = 0 \<and> y = 0
      then (case fl_mul rd lambda_x lambda_y of
              None \<Rightarrow> None
            | Some m \<Rightarrow> (case fl_mul rd m rho of None \<Rightarrow> None | Some m' \<Rightarrow> fl_sub rd 1 m'))
      else if x = 0 \<and> y = 1
      then (case fl_mul rd lambda_x rho of None \<Rightarrow> None | Some m \<Rightarrow> fl_add rd 1 m)
      else if x = 1 \<and> y = 0
      then (case fl_mul rd lambda_y rho of None \<Rightarrow> None | Some m \<Rightarrow> fl_add rd 1 m)
      else if x = 1 \<and> y = 1 then fl_sub rd 1 rho
      else Some 1)"

text \<open>
  \<^verbatim>\<open>prob = poisson.pmf(i, lambda_casa) * poisson.pmf(j, lambda_visitante)
          * tau(i, j, lambda_casa, lambda_visitante, rho)\<close>
\<close>

definition prob_dixon_coles_fl ::
    "arredondamento \<Rightarrow> (int \<Rightarrow> real \<Rightarrow> real option) \<Rightarrow> real \<Rightarrow> real \<Rightarrow> real \<Rightarrow> int \<Rightarrow> int \<Rightarrow> real option" where
  "prob_dixon_coles_fl rd pmf_f lambda_casa lambda_visitante rho i j =
     (case pmf_f i lambda_casa of
        None \<Rightarrow> None
      | Some p \<Rightarrow>
          (case pmf_f j lambda_visitante of
             None \<Rightarrow> None
           | Some q \<Rightarrow>
               (case fl_mul rd p q of
                  None \<Rightarrow> None
                | Some m \<Rightarrow>
                    (case tau_fl rd i j lambda_casa lambda_visitante rho of
                       None \<Rightarrow> None
                     | Some t \<Rightarrow> fl_mul rd m t))))"

text \<open>The first loop: \<^verbatim>\<open>total_prob += prob\<close> rounds at every step.\<close>

definition acumular_fl ::
    "arredondamento \<Rightarrow> (int \<Rightarrow> int \<Rightarrow> real option) \<Rightarrow> int \<Rightarrow> (dict \<times> real) option" where
  "acumular_fl rd prob max_gols =
     para_cada [0..max_gols] (\<lambda>i.
       para_cada [0..max_gols] (\<lambda>j (probabilidades, total_prob).
         case prob i j of
           None \<Rightarrow> None
         | Some p \<Rightarrow> (case fl_add rd total_prob p of
                        None \<Rightarrow> None
                      | Some t \<Rightarrow> Some (dict_set probabilidades (i, j) p, t))))
       ([], 0)"

text \<open>The second loop: \<^verbatim>\<open>probabilidades[key] / total_prob\<close> rounds.\<close>

fun normalizar_fl :: "arredondamento \<Rightarrow> dict \<Rightarrow> real \<Rightarrow> dict option" where
  "normalizar_fl rd [] total_prob = Some []"
| "normalizar_fl rd ((key, v) # d) total_prob =
     (case fl_div rd v total_prob of
        None \<Rightarrow> None
      | Some q \<Rightarrow> (case normalizar_fl rd d total_prob of
                    None \<Rightarrow> None
                  | Some d' \<Rightarrow> Some ((key, q) # d')))"

definition calcular_probabilidades_poisson_fl ::
    "arredondamento \<Rightarrow> (int \<Rightarrow> real \<Rightarrow> real option) \<Rightarrow> real \<Rightarrow> real \<Rightarrow> int \<Rightarrow> falha + dict" where
  "calcular_probabilidades_poisson_fl rd pmf_f lambda_casa lambda_visitante max_gols =
     (case acumular_fl rd (prob_poisson_fl rd pmf_f lambda_casa lambda_visitante) max_gols of
        None \<Rightarrow> Inl NaN
      | Some (probabilidades, total_prob) \<Rightarrow>
          (case normalizar_fl rd probabilidades total_prob of
             None \<Rightarrow> Inl NaN
           | Some normalizadas \<Rightarrow> Inr (ordenar normalizadas)))"

definition calcular_probabilidades_dixon_coles_fl ::
    "arredondamento \<Rightarrow> (int \<Rightarrow> real \<Rightarrow> real option) \<Rightarrow> real \<Rightarrow> real \<Rightarrow> real \<Rightarrow> int \<Rightarrow> falha + dict" where
  "calcular_probabilidades_dixon_coles_fl rd pmf_f lambda_casa lambda_visitante rho max_gols =
     (case acumular_fl rd (prob_dixon_coles_fl rd pmf_f lambda_casa lambda_visitante rho) max_gols of
        None \<Rightarrow> Inl NaN
      | Some (probabilidades, total_prob) \<Rightarrow>
          (case normalizar_fl rd probabilidades total_prob of
             None \<Rightarrow> Inl NaN
           | Some normalizadas \<Rightarrow> Inr (ordenar normalizadas)))"

text \<open>
  What the proofs use of IEEE 754 binary64 arithmetic in round-to-nearest, the
  arithmetic of \<^verbatim>\<open>float64\<close>: zero and one are \<^verbatim>\<open>float64\<close> values; a rounded
  result is a \<^verbatim>\<open>float64\<close> value (rounding it again changes nothing); rounding is
  monotone; the rounded sum of two \<^verbatim>\<open>float64\<close> values has a relative error of at
  most \<open>u64 = 2\<^sup>-\<^sup>5\<^sup>3\<close> (in the subnormal range the sum is exact); any rounded result
  has a relative error of at most \<open>u64\<close> plus the absolute error
  \<open>eta64 = 2\<^sup>-\<^sup>1\<^sup>0\<^sup>7\<^sup>5\<close> of the subnormal range.
\<close>

definition u64 :: real where
  "u64 = 1 / 2 ^ 53"

definition eta64 :: real where
  "eta64 = 1 / 2 ^ 1075"

definition binary64 :: "arredondamento \<Rightarrow> bool" where
  "binary64 rd \<longleftrightarrow>
     rd 0 = Some 0 \<and> rd 1 = Some 1 \<and>
     (\<forall>x y. rd x = Some y \<longrightarrow> rd y = Some y) \<and>
     (\<forall>x x' y y'. x \<le> x' \<and> rd x = Some y \<and> rd x' = Some y' \<longrightarrow> y \<le> y') \<and>
     (\<forall>x y z. rd x = Some x \<and> rd y = Some y \<and> rd (x + y) = Some z \<longrightarrow>
        \<bar>z - (x + y)\<bar> \<le> u64 * \<bar>x + y\<bar>) \<and>
     (\<forall>x y. rd x = Some y \<longrightarrow> \<bar>y - x\<bar> \<le> u64 * \<bar>x\<bar> + eta64)"

text \<open>
  What the proofs use of scipy's \<open>poisson.pmf\<close>: it is \<open>nan\<close> at a negative
  rate, and a value it returns is a \<^verbatim>\<open>float64\<close> that is not negative (scipy
  clips it to \<open>[0, 1]\<close>).
\<close>

definition pmf_float :: "arredondamento \<Rightarrow> (int \<Rightarrow> real \<Rightarrow> real option) \<Rightarrow> bool" where
  "pmf_float rd pmf_f \<longleftrightarrow>
     (\<forall>k mu. mu < 0 \<longrightarrow> pmf_f k mu = None) \<and>
     (\<forall>k mu p. pmf_f k mu = Some p \<longrightarrow> 0 \<le> p \<and> rd p = Some p)"

text \<open>The four factors \<open>tau\<close>, as the program computes them, are not negative.\<close>

definition fatores_nao_negativos :: "arredondamento \<Rightarrow> real \<Rightarrow> real \<Rightarrow> real \<Rightarrow> bool" where
  "fatores_nao_negativos rd lambda_casa lambda_visitante rho \<longleftrightarrow>
     (\<forall>i j t. tau_fl rd i j lambda_casa lambda_visitante rho = Some t \<longrightarrow> 0 \<le> t)"

text \<open>The running sum of the first loop: the values added from the left, rounding at every step.\<close>

fun fl_soma :: "arredondamento \<Rightarrow> real \<Rightarrow> real list \<Rightarrow> real option" where
  "fl_soma rd t [] = Some t"
| "fl_soma rd t (v # vs) = (case fl_add rd t v of None \<Rightarrow> None | Some t' \<Rightarrow> fl_soma rd t' vs)"

subsection \<open>Monte Carlo simulation\<close>

text \<open>
  The simulator has no generator parameter: it calls \<^verbatim>\<open>np.random.choice\<close> and
  \<^verbatim>\<open>np.random.random\<close>, which read and advance numpy's process-global
  generator. That hidden state is passed explicitly here. A generator state is
  the stream of uniform variates it is going to deliver: \<open>g k\<close> is the value of
  the \<open>k\<close>-th next draw.
\<close>

type_synonym gerador = "nat \<Rightarrow> real"

text \<open>\<^verbatim>\<open>random_sample(n)\<close>, which \<^verbatim>\<open>choice\<close> calls: the next \<open>n\<close> variates at once.\<close>

definition np_random_sample :: "nat \<Rightarrow> gerador \<Rightarrow> real list \<times> gerador" where
  "np_random_sample n g = (map g [0..<n], (\<lambda>k. g (n + k)))"

text \<open>\<^verbatim>\<open>np.random.random()\<close>: the next variate.\<close>

definition np_random :: "gerador \<Rightarrow> real \<times> gerador" where
  "np_random g = (g 0, (\<lambda>k. g (Suc k)))"

text \<open>\<^verbatim>\<open>p.cumsum()\<close>, the running sums.\<close>

fun cumsum_de :: "real \<Rightarrow> real list \<Rightarrow> real list" where
  "cumsum_de acc [] = []"
| "cumsum_de acc (x # xs) = (acc + x) # cumsum_de (acc + x) xs"

definition cumsum :: "real list \<Rightarrow> real list" where
  "cumsum p = cumsum_de 0 p"

text \<open>
  \<^verbatim>\<open>cdf.searchsorted(u, side='right')\<close> on an ascending array: the number of
  leading entries that are \<open>\<le> u\<close>.
\<close>

definition searchsorted_right :: "real list \<Rightarrow> real \<Rightarrow> nat" where
  "searchsorted_right cdf u = length (takeWhile (\<lambda>c. c \<le> u) cdf)"

text \<open>numpy's tolerance on the sum of \<open>p\<close>: the square root of the float64 epsilon \<open>2\<^sup>-\<^sup>5\<^sup>2\<close>.\<close>

definition atol :: real where
  "atol = 1 / 2 ^ 26"

text \<open>
  Modelled from the spec: \<^verbatim>\<open>np.random.choice(a, size=size, p=p)\<close> for an integer
  \<open>a\<close>, a library function that is not part of the repository. The
  specification describes the sampling: partition \<open>[0, 1)\<close> by cumulative
  probability in the order of the distribution, draw a uniform value per sample,
  locate its bin. numpy first checks its arguments and raises \<open>ValueError\<close> for
  an empty population when samples are asked for, for a \<open>p\<close> of the wrong
  length, with a negative entry or whose sum is not one, and for a negative
  size.
\<close>

definition choice :: "nat \<Rightarrow> int \<Rightarrow> real list \<Rightarrow> gerador \<Rightarrow> (falha + nat list) \<times> gerador" where
  "choice a size' p g =
     (if a = 0 \<and> size' \<noteq> 0 then (Inl ValueError, g)
      else if length p \<noteq> a then (Inl ValueError, g)
      else if (\<exists>x\<in>set p. x < 0) then (Inl ValueError, g)
      else if \<bar>sum_list p - 1\<bar> > atol then (Inl ValueError, g)
      else if size' < 0 then (Inl ValueError, g)
      else (let cdf = cumsum p;
                cdf = map (\<lambda>c. c / last cdf) cdf;
                (uniform_samples, g) = np_random_sample (nat size') g
            in (Inr (map (searchsorted_right cdf) uniform_samples), g)))"

text \<open>The six counters of the tallying loop.\<close>

record contagem =
  vitoria_casa :: nat
  empate :: nat
  vitoria_visitante :: nat
  over_2_5 :: nat
  btts :: nat
  gol_1_tempo :: nat

text \<open>
  \<^verbatim>\<open>for idx in resultados: gols_casa, gols_visitante = placares[idx]; ...\<close>
  Each iteration classifies the sampled scoreline and calls
  \<^verbatim>\<open>np.random.random()\<close> once (it is the left operand of the \<^verbatim>\<open>and\<close>).
  An index beyond the list raises \<open>IndexError\<close>.
\<close>

fun contar :: "placar list \<Rightarrow> nat list \<Rightarrow> contagem \<Rightarrow> gerador \<Rightarrow> (falha + contagem) \<times> gerador" where
  "contar placares [] c g = (Inr c, g)"
| "contar placares (idx # resultados) c g =
     (if length placares \<le> idx then (Inl IndexError, g)
      else
        (let gols_casa = fst (placares ! idx);
             gols_visitante = snd (placares ! idx);
             c = (if gols_casa > gols_visitante then c\<lparr>vitoria_casa := vitoria_casa c + 1\<rparr>
                  else if gols_casa = gols_visitante then c\<lparr>empate := empate c + 1\<rparr>
                  else c\<lparr>vitoria_visitante := vitoria_visitante c + 1\<rparr>);
             c = (if real_of_int (gols_casa + gols_visitante) > 5 / 2
                  then c\<lparr>over_2_5 := over_2_5 c + 1\<rparr> else c);
             c = (if gols_casa > 0 \<and> gols_visitante > 0 then c\<lparr>btts := btts c + 1\<rparr> else c);
             r = fst (np_random g);
             g = snd (np_random g);
             c = (if r < 1 / 2 \<and> gols_casa + gols_visitante > 0
                  then c\<lparr>gol_1_tempo := gol_1_tempo c + 1\<rparr> else c)
         in contar placares resultados c g))"

text \<open>
  \<open>simular_monte_carlo\<close>. Both builders are called with their default
  \<open>max_gols = 5\<close>. A dictionary of \<open>nan\<close> values makes \<^verbatim>\<open>np.random.choice\<close>
  raise \<open>ValueError\<close>. The final divisions are Python's \<^verbatim>\<open>int / int\<close>, which
  raise \<open>ZeroDivisionError\<close> when \<open>n_simulacoes\<close> is \<open>0\<close>. The returned
  dictionary is the list of its items.
\<close>

definition simular_monte_carlo ::
    "real \<Rightarrow> real \<Rightarrow> int \<Rightarrow> real \<Rightarrow> bool \<Rightarrow> gerador \<Rightarrow> (falha + (string \<times> real) list) \<times> gerador" where
  "simular_monte_carlo lambda_casa lambda_visitante n_simulacoes rho usar_dixon_coles g =
     (case (if usar_dixon_coles
            then calcular_probabilidades_dixon_coles lambda_casa lambda_visitante rho 5
            else calcular_probabilidades_poisson lambda_casa lambda_visitante 5) of
        Inl e \<Rightarrow> (Inl (if e = NaN then ValueError else e), g)
      | Inr probs_placares \<Rightarrow>
          (let placares = map fst probs_placares;
               probabilidades = map snd probs_placares
           in case choice (length placares) n_simulacoes probabilidades g of
                (Inl e, g) \<Rightarrow> (Inl e, g)
              | (Inr resultados, g) \<Rightarrow>
                  (case contar placares resultados
                          \<lparr>vitoria_casa = 0, empate = 0, vitoria_visitante = 0,
                           over_2_5 = 0, btts = 0, gol_1_tempo = 0\<rparr> g of
                     (Inl e, g) \<Rightarrow> (Inl e, g)
                   | (Inr c, g) \<Rightarrow>
                       if n_simulacoes = 0 then (Inl ZeroDivisionError, g)
                       else (Inr [(''vitoria_casa'', real (vitoria_casa c) / real_of_int n_simulacoes),
                                  (''empate'', real (empate c) / real_of_int n_simulacoes),
                                  (''vitoria_visitante'', real (vitoria_visitante c) / real_of_int n_simulacoes),
                                  (''over_2_5'', real (over_2_5 c) / real_of_int n_simulacoes),
                                  (''btts'', real (btts c) / real_of_int n_simulacoes),
                                  (''gol_1_tempo'', real (gol_1_tempo c) / real_of_int n_simulacoes)],
                             g))))"

subsection \<open>Vocabulary of the properties\<close>

text \<open>
  The cells of the grid \<open>[0, max_gols]\<^sup>2\<close> in the order in which the two nested
  loops visit them (row by row, home goals first).
\<close>

definition celulas :: "int \<Rightarrow> placar list" where
  "celulas max_gols = List.product [0..max_gols] [0..max_gols]"

text \<open>
  The Poisson mass function as the specification writes it,
  \<open>P(k; \<lambda>) = \<lambda>\<^sup>k e\<^sup>-\<^sup>\<lambda> / k!\<close>: the value of \<open>poisson_pmf\<close> on the support, for
  a rate that is not negative.
\<close>

definition pmf :: "int \<Rightarrow> real \<Rightarrow> real" where
  "pmf k mu = mu ^ nat k * exp (- mu) / fact (nat k)"

text \<open>The raw (pre-normalization) mass of a cell under each model.\<close>

definition massa_poisson :: "real \<Rightarrow> real \<Rightarrow> placar \<Rightarrow> real" where
  "massa_poisson a b c = pmf (fst c) a * pmf (snd c) b"

definition massa_dixon_coles :: "real \<Rightarrow> real \<Rightarrow> real \<Rightarrow> placar \<Rightarrow> real" where
  "massa_dixon_coles a b rho c = pmf (fst c) a * pmf (snd c) b * tau (fst c) (snd c) a b rho"

text \<open>The sum of the raw masses of all cells of the grid.\<close>

definition massa_total :: "(placar \<Rightarrow> real) \<Rightarrow> int \<Rightarrow> real" where
  "massa_total m N = sum_list (map m (celulas N))"

text \<open>
  Every raw cell mass divided by the sum of all computed cells, in grid order.
\<close>

definition normalizada :: "(placar \<Rightarrow> real) \<Rightarrow> int \<Rightarrow> dict" where
  "normalizada m N = map (\<lambda>c. (c, m c / massa_total m N)) (celulas N)"




section \<open>Properties\<close>

subsection \<open>The accumulation loop\<close>

lemma dict_set_fresh: "k \<notin> fst ` set d \<Longrightarrow> dict_set d k v = d @ [(k, v)]"
  by (induction d) auto

lemma para_cada_linha:
  assumes "\<forall>j\<in>set js. prob i j = Some (m i j)" "distinct js" "\<forall>j\<in>set js. (i, j) \<notin> fst ` set d"
  shows "para_cada js (\<lambda>j (probabilidades, total_prob).
            case prob i j of None \<Rightarrow> None
            | Some p \<Rightarrow> Some (dict_set probabilidades (i, j) p, total_prob + p)) (d, t)
         = Some (d @ map (\<lambda>j. ((i, j), m i j)) js, t + sum_list (map (m i) js))"
  using assms
proof (induction js arbitrary: d t)
  case Nil
  then show ?case by simp
next
  case (Cons j js)
  have fresh: "\<forall>j'\<in>set js. (i, j') \<notin> fst ` set (d @ [((i, j), m i j)])"
    using Cons.prems by auto
  show ?case
    using Cons.prems Cons.IH[OF _ _ fresh, of "t + m i j"]
    by (simp add: dict_set_fresh add.assoc)
qed

lemma para_cada_grade:
  assumes "\<forall>i\<in>set is. \<forall>j\<in>set js. prob i j = Some (m i j)" "distinct is" "distinct js"
    "\<forall>i\<in>set is. \<forall>j\<in>set js. (i, j) \<notin> fst ` set d"
  shows "para_cada is (\<lambda>i. para_cada js (\<lambda>j (probabilidades, total_prob).
            case prob i j of None \<Rightarrow> None
            | Some p \<Rightarrow> Some (dict_set probabilidades (i, j) p, total_prob + p))) (d, t)
         = Some (d @ map (\<lambda>c. (c, m (fst c) (snd c))) (List.product is js),
                 t + sum_list (map (\<lambda>c. m (fst c) (snd c)) (List.product is js)))"
  using assms
proof (induction "is" arbitrary: d t)
  case Nil
  then show ?case by simp
next
  case (Cons i "is")
  have row: "para_cada js (\<lambda>j (probabilidades, total_prob).
            case prob i j of None \<Rightarrow> None
            | Some p \<Rightarrow> Some (dict_set probabilidades (i, j) p, total_prob + p)) (d, t)
         = Some (d @ map (\<lambda>j. ((i, j), m i j)) js, t + sum_list (map (m i) js))"
    using Cons.prems by (intro para_cada_linha) auto
  have fresh: "\<forall>i'\<in>set is. \<forall>j\<in>set js. (i', j) \<notin> fst ` set (d @ map (\<lambda>j. ((i, j), m i j)) js)"
    using Cons.prems by (force simp: image_iff)
  show ?case
    using Cons.prems Cons.IH[OF _ _ _ fresh, of "t + sum_list (map (m i) js)"]
    by (simp add: row add.assoc comp_def)
qed

lemma acumular_eq:
  assumes "\<forall>i\<in>{0..N}. \<forall>j\<in>{0..N}. prob i j = Some (m i j)"
  shows "acumular prob N = Some (map (\<lambda>c. (c, m (fst c) (snd c))) (celulas N),
                                 sum_list (map (\<lambda>c. m (fst c) (snd c)) (celulas N)))"
  unfolding acumular_def celulas_def
  using para_cada_grade[of "[0..N]" "[0..N]" prob m "[]" 0] assms by simp

lemma acumular_massa:
  assumes "\<And>i j. 0 \<le> i \<Longrightarrow> 0 \<le> j \<Longrightarrow> prob i j = Some (m (i, j))"
  shows "acumular prob N = Some (map (\<lambda>c. (c, m c)) (celulas N), massa_total m N)"
  using acumular_eq[of N prob "\<lambda>i j. m (i, j)"] assms by (simp add: massa_total_def)

subsection \<open>The grid and its sums\<close>

lemma celulas_0: "celulas 0 = [(0,0)]"
  by (simp add: celulas_def upto.simps)

lemma celulas_1: "celulas 1 = [(0,0),(0,1),(1,0),(1,1)]"
  by (simp add: celulas_def upto.simps)

lemma celulas_nonempty: "0 \<le> N \<Longrightarrow> celulas N \<noteq> []"
  by (simp add: celulas_def upto_rec1[of 0 N])

lemma celulas_empty: "N < 0 \<Longrightarrow> celulas N = []"
  by (simp add: celulas_def)

lemma set_celulas: "set (celulas N) = {0..N} \<times> {0..N}"
  by (simp add: celulas_def)

lemma sum_list_product:
  "sum_list (map f (List.product xs ys)) = (\<Sum>i\<leftarrow>xs. \<Sum>j\<leftarrow>ys. f (i, j))"
  by (induction xs) (simp_all add: comp_def)

lemma sum_list_pos_real:
  fixes f :: "'a \<Rightarrow> real"
  shows "xs \<noteq> [] \<Longrightarrow> (\<And>x. x \<in> set xs \<Longrightarrow> 0 < f x) \<Longrightarrow> 0 < sum_list (map f xs)"
proof (induction xs)
  case Nil
  then show ?case by simp
next
  case (Cons x xs)
  have "0 \<le> sum_list (map f xs)"
    using Cons.prems(2) by (intro sum_list_nonneg) (auto intro: less_imp_le)
  moreover have "0 < f x" using Cons.prems(2) by simp
  ultimately show ?case by simp
qed

lemma sum_list_all_zero:
  fixes f :: "'a \<Rightarrow> real"
  shows "(\<And>x. x \<in> set xs \<Longrightarrow> f x = 0) \<Longrightarrow> sum_list (map f xs) = 0"
  by (induction xs) auto

lemma upto_0_1: "1 \<le> N \<Longrightarrow> [0..N] = 0 # 1 # [2..N]"
  by (simp add: upto_rec1[of 0 N] upto_rec1[of 1 N])

subsection \<open>Normalization and sorting\<close>

lemma normalizar_eq:
  "t \<noteq> 0 \<Longrightarrow> normalizar d t = Some (map (\<lambda>item. (fst item, snd item / t)) d)"
  by (induction d) (auto simp: np_div_def)

lemma finalizar_eq:
  assumes "massa_total m N \<noteq> 0 \<or> N < 0"
  shows "normalizar (map (\<lambda>c. (c, m c)) (celulas N)) (massa_total m N) = Some (normalizada m N)"
proof (cases "N < 0")
  case True
  then show ?thesis by (simp add: celulas_empty normalizada_def)
next
  case False
  with assms have "massa_total m N \<noteq> 0" by simp
  then show ?thesis by (simp add: normalizar_eq normalizada_def comp_def)
qed



subsection \<open>Raw masses and their totals\<close>

lemma pmf_pos: "0 < mu \<Longrightarrow> 0 < pmf k mu"
  by (simp add: pmf_def)

lemma prob_poisson_eq:
  "0 \<le> a \<Longrightarrow> 0 \<le> b \<Longrightarrow> 0 \<le> i \<Longrightarrow> 0 \<le> j \<Longrightarrow> prob_poisson a b i j = Some (pmf i a * pmf j b)"
  by (simp add: prob_poisson_def poisson_pmf_def pmf_def)

lemma prob_dixon_coles_eq:
  "0 \<le> a \<Longrightarrow> 0 \<le> b \<Longrightarrow> 0 \<le> i \<Longrightarrow> 0 \<le> j \<Longrightarrow>
   prob_dixon_coles a b rho i j = Some (pmf i a * pmf j b * tau i j a b rho)"
  by (simp add: prob_dixon_coles_def poisson_pmf_def pmf_def)

lemma total_poisson_pos: "0 < a \<Longrightarrow> 0 < b \<Longrightarrow> 0 \<le> N \<Longrightarrow> 0 < massa_total (massa_poisson a b) N"
  unfolding massa_total_def
  by (intro sum_list_pos_real celulas_nonempty) (auto simp: massa_poisson_def pmf_pos)

lemma total_poisson_factor:
  "massa_total (massa_poisson a b) N = (\<Sum>i\<leftarrow>[0..N]. pmf i a) * (\<Sum>j\<leftarrow>[0..N]. pmf j b)"
  by (simp add: massa_total_def celulas_def sum_list_product massa_poisson_def
      sum_list_const_mult sum_list_mult_const)

text \<open>
  On a grid that holds the four low-score cells the corrections cancel:
  the Dixon-Coles total is the Poisson total, whatever \<open>rho\<close> is.
\<close>

lemma total_dixon_coles:
  assumes "1 \<le> N"
  shows "massa_total (massa_dixon_coles a b rho) N = massa_total (massa_poisson a b) N"
proof -
  define g where "g i j = pmf i a * pmf j b * (tau i j a b rho - 1)" for i j
  have split: "massa_dixon_coles a b rho c = massa_poisson a b c + g (fst c) (snd c)" for c
    by (simp add: massa_dixon_coles_def massa_poisson_def g_def algebra_simps)
  have far_j: "g i j = 0" if "j \<in> set [2..N]" for i j
    using that by (auto simp: g_def tau_def)
  have far_i: "g i j = 0" if "i \<in> set [2..N]" for i j
    using that by (auto simp: g_def tau_def)
  have row_j: "(\<Sum>j\<leftarrow>[2..N]. g i j) = 0" for i
    by (rule sum_list_all_zero) (auto simp: far_j)
  have row_i: "(\<Sum>i\<leftarrow>[2..N]. g i 0 + g i 1) = 0"
    by (rule sum_list_all_zero) (use far_i in auto)
  have "(\<Sum>c\<leftarrow>celulas N. g (fst c) (snd c)) = (\<Sum>i\<leftarrow>[0..N]. \<Sum>j\<leftarrow>[0..N]. g i j)"
    unfolding celulas_def sum_list_product by simp
  also have "\<dots> = g 0 0 + g 0 1 + g 1 0 + g 1 1"
    by (simp add: upto_0_1[OF assms] row_j row_i)
  also have "\<dots> = 0"
    by (simp add: g_def tau_def pmf_def algebra_simps)
  finally have "(\<Sum>c\<leftarrow>celulas N. g (fst c) (snd c)) = 0" .
  moreover have "massa_dixon_coles a b rho = (\<lambda>c. massa_poisson a b c + g (fst c) (snd c))"
    by (rule ext) (rule split)
  ultimately show ?thesis
    by (simp add: massa_total_def sum_list_addf)
qed

lemma total_dixon_coles_0: "massa_total (massa_dixon_coles a b rho) 0 = exp (- a) * exp (- b) * (1 - a * b * rho)"
  by (simp add: massa_total_def celulas_0 massa_dixon_coles_def pmf_def tau_def)

lemma total_dixon_coles_nonzero:
  assumes "0 < a" "0 < b" "0 \<le> N" "1 \<le> N \<or> a * b * rho \<noteq> 1"
  shows "massa_total (massa_dixon_coles a b rho) N \<noteq> 0"
proof (cases "1 \<le> N")
  case True
  then show ?thesis
    using total_dixon_coles[OF True, of a b rho] total_poisson_pos[OF assms(1,2), of N] by simp
next
  case False
  with assms have "N = 0" "a * b * rho \<noteq> 1" by auto
  then show ?thesis by (simp add: total_dixon_coles_0)
qed

subsection \<open>What the builders return\<close>

lemma poisson_result:
  assumes "0 < a" "0 < b"
  shows "calcular_probabilidades_poisson a b N = Inr (ordenar (normalizada (massa_poisson a b) N))"
proof -
  have acc: "acumular (prob_poisson a b) N =
      Some (map (\<lambda>c. (c, massa_poisson a b c)) (celulas N), massa_total (massa_poisson a b) N)"
    using assms by (intro acumular_massa) (simp add: prob_poisson_eq massa_poisson_def)
  have "massa_total (massa_poisson a b) N \<noteq> 0 \<or> N < 0"
    using total_poisson_pos[OF assms, of N] by (cases "N < 0") auto
  from finalizar_eq[OF this] acc show ?thesis
    by (simp add: calcular_probabilidades_poisson_def)
qed

lemma dixon_coles_result:
  assumes "0 < a" "0 < b" "massa_total (massa_dixon_coles a b rho) N \<noteq> 0 \<or> N < 0"
  shows "calcular_probabilidades_dixon_coles a b rho N =
         Inr (ordenar (normalizada (massa_dixon_coles a b rho) N))"
proof -
  have acc: "acumular (prob_dixon_coles a b rho) N =
      Some (map (\<lambda>c. (c, massa_dixon_coles a b rho c)) (celulas N),
            massa_total (massa_dixon_coles a b rho) N)"
    using assms(1,2) by (intro acumular_massa) (simp add: prob_dixon_coles_eq massa_dixon_coles_def)
  from finalizar_eq[OF assms(3)] acc show ?thesis
    by (simp add: calcular_probabilidades_dixon_coles_def)
qed

subsection \<open>Normalization\<close>


subsection \<open>The dependence correction\<close>

text \<open>
  C2. For positive rates and a cell \<open>(i, j)\<close> of the grid, the mass that the
  first loop of \<open>calcular_probabilidades_dixon_coles\<close> stores for the cell,
  before normalization, is \<open>P(i; lambda_casa) * P(j; lambda_visitante) * \<tau>(i, j)\<close>
  with \<open>\<tau>(0,0) = 1 - lambda_casa * lambda_visitante * rho\<close>,
  \<open>\<tau>(0,1) = 1 + lambda_casa * rho\<close>, \<open>\<tau>(1,0) = 1 + lambda_visitante * rho\<close>,
  \<open>\<tau>(1,1) = 1 - rho\<close> and \<open>\<tau> = 1\<close> on every other cell.
\<close>

theorem dixon_coles_massa:
  assumes "0 < a" "0 < b" "0 \<le> i" "i \<le> N" "0 \<le> j" "j \<le> N"
  shows "\<exists>d t. acumular (prob_dixon_coles a b rho) N = Some (d, t) \<and>
           map_of d (i, j) = Some (pmf i a * pmf j b *
             (if i = 0 \<and> j = 0 then 1 - a * b * rho
              else if i = 0 \<and> j = 1 then 1 + a * rho
              else if i = 1 \<and> j = 0 then 1 + b * rho
              else if i = 1 \<and> j = 1 then 1 - rho
              else 1))"
proof -
  have acc: "acumular (prob_dixon_coles a b rho) N =
      Some (map (\<lambda>c. (c, massa_dixon_coles a b rho c)) (celulas N),
            massa_total (massa_dixon_coles a b rho) N)"
    using assms(1,2) by (intro acumular_massa) (simp add: prob_dixon_coles_eq massa_dixon_coles_def)
  have "map_of (map (\<lambda>c. (c, massa_dixon_coles a b rho c)) (celulas N)) (i, j)
        = Some (massa_dixon_coles a b rho (i, j))"
    unfolding map_of_map_restrict using assms by (simp add: restrict_map_def set_celulas)
  then show ?thesis
    unfolding acc by (simp add: massa_dixon_coles_def tau_def)
qed

text \<open>The theorem at the cell \<open>(0, 1)\<close> of the grid of \<open>max_gols = 1\<close>.\<close>

theorem dixon_coles_massa_witness:
  "\<exists>d t. acumular (prob_dixon_coles 1 1 2) 1 = Some (d, t) \<and>
       map_of d (0, 1) = Some (pmf 0 1 * pmf 1 1 * (1 + 1 * 2))"
  using dixon_coles_massa[of 1 1 0 1 1 2] by simp



subsection \<open>Range of the probabilities\<close>

lemma tau_nonneg:
  assumes "0 \<le> 1 - a * b * rho" "0 \<le> 1 + a * rho" "0 \<le> 1 + b * rho" "0 \<le> 1 - rho"
  shows "0 \<le> tau i j a b rho"
  using assms by (simp add: tau_def)

text \<open>
  C8, as the claim states it, fails: the code has no clamp. With
  \<open>lambda_casa = lambda_visitante = 1\<close>, \<open>rho = 2\<close> and \<open>max_gols = 1\<close> the factors
  \<open>\<tau>(0,0)\<close> and \<open>\<tau>(1,1)\<close> are \<open>-1\<close>, and the cells \<open>(0,0)\<close> and \<open>(1,1)\<close> are returned
  with probability \<open>-1/4\<close>.
\<close>

theorem probabilidades_negativas_counterexample: "calcular_probabilidades_dixon_coles 1 1 2 1 =
    Inr [((0,1), 3/4), ((1,0), 3/4), ((0,0), -1/4), ((1,1), -1/4)] \<and>
   (- 1 / 4 :: real) < 0"
proof -
  have "acumular (prob_dixon_coles 1 1 2) 1 =
     Some ([((0,0), - exp (-1) * exp (-1)), ((0,1), 3 * exp (-1) * exp (-1)),
            ((1,0), 3 * exp (-1) * exp (-1)), ((1,1), - exp (-1) * exp (-1))], 4 * exp (-1) * exp (-1))"
    by (subst acumular_eq[where m = "\<lambda>i j. pmf i 1 * pmf j 1 * tau i j 1 1 2"])
       (auto simp: prob_dixon_coles_eq celulas_1 tau_def pmf_def)
  then show ?thesis
    by (simp add: calcular_probabilidades_dixon_coles_def np_div_def ordenar_def)
qed

subsection \<open>The builders in float64 arithmetic\<close>

lemma fl_soma_append:
  "fl_soma rd t (xs @ ys) = (case fl_soma rd t xs of None \<Rightarrow> None | Some t' \<Rightarrow> fl_soma rd t' ys)"
  by (induction xs arbitrary: t) (auto split: option.splits)

lemma para_cada_linha_fl:
  assumes "para_cada js (\<lambda>j (probabilidades, total_prob).
             case prob i j of
               None \<Rightarrow> None
             | Some p \<Rightarrow> (case fl_add rd total_prob p of
                            None \<Rightarrow> None
                          | Some t \<Rightarrow> Some (dict_set probabilidades (i, j) p, t))) (d, t0) = Some (d', t')"
    "distinct js" "\<forall>j\<in>set js. (i, j) \<notin> fst ` set d"
  shows "(\<forall>j\<in>set js. prob i j \<noteq> None) \<and>
         d' = d @ map (\<lambda>j. ((i, j), the (prob i j))) js \<and>
         fl_soma rd t0 (map (\<lambda>j. the (prob i j)) js) = Some t'"
  using assms
proof (induction js arbitrary: d t0)
  case Nil
  then show ?case by simp
next
  case (Cons j js)
  from Cons.prems(1) obtain p t1 where p: "prob i j = Some p" and t1: "fl_add rd t0 p = Some t1"
    and rest: "para_cada js (\<lambda>j (probabilidades, total_prob).
             case prob i j of
               None \<Rightarrow> None
             | Some p \<Rightarrow> (case fl_add rd total_prob p of
                            None \<Rightarrow> None
                          | Some t \<Rightarrow> Some (dict_set probabilidades (i, j) p, t)))
           (dict_set d (i, j) p, t1) = Some (d', t')"
    by (auto split: option.splits)
  have set: "dict_set d (i, j) p = d @ [((i, j), p)]"
    using Cons.prems(3) by (simp add: dict_set_fresh)
  have fresh: "\<forall>j'\<in>set js. (i, j') \<notin> fst ` set (d @ [((i, j), p)])"
    using Cons.prems(2,3) by auto
  from Cons.IH[OF rest[unfolded set] _ fresh] Cons.prems(2) p t1 show ?case
    by simp
qed

lemma para_cada_grade_fl:
  assumes "para_cada is (\<lambda>i. para_cada js (\<lambda>j (probabilidades, total_prob).
             case prob i j of
               None \<Rightarrow> None
             | Some p \<Rightarrow> (case fl_add rd total_prob p of
                            None \<Rightarrow> None
                          | Some t \<Rightarrow> Some (dict_set probabilidades (i, j) p, t)))) (d, t0) = Some (d', t')"
    "distinct is" "distinct js" "\<forall>i\<in>set is. \<forall>j\<in>set js. (i, j) \<notin> fst ` set d"
  shows "(\<forall>c\<in>set (List.product is js). prob (fst c) (snd c) \<noteq> None) \<and>
         d' = d @ map (\<lambda>c. (c, the (prob (fst c) (snd c)))) (List.product is js) \<and>
         fl_soma rd t0 (map (\<lambda>c. the (prob (fst c) (snd c))) (List.product is js)) = Some t'"
  using assms
proof (induction "is" arbitrary: d t0)
  case Nil
  then show ?case by simp
next
  case (Cons i "is")
  from Cons.prems(1) obtain d1 t1 where
    row: "para_cada js (\<lambda>j (probabilidades, total_prob).
             case prob i j of
               None \<Rightarrow> None
             | Some p \<Rightarrow> (case fl_add rd total_prob p of
                            None \<Rightarrow> None
                          | Some t \<Rightarrow> Some (dict_set probabilidades (i, j) p, t))) (d, t0) = Some (d1, t1)"
    and rest: "para_cada is (\<lambda>i. para_cada js (\<lambda>j (probabilidades, total_prob).
             case prob i j of
               None \<Rightarrow> None
             | Some p \<Rightarrow> (case fl_add rd total_prob p of
                            None \<Rightarrow> None
                          | Some t \<Rightarrow> Some (dict_set probabilidades (i, j) p, t)))) (d1, t1) = Some (d', t')"
    by (auto split: option.splits)
  have fr: "\<forall>j\<in>set js. (i, j) \<notin> fst ` set d" using Cons.prems(4) by simp
  from para_cada_linha_fl[where prob = prob and i = i and rd = rd, OF row Cons.prems(3) fr]
  have r1: "\<forall>j\<in>set js. prob i j \<noteq> None"
    and r2: "d1 = d @ map (\<lambda>j. ((i, j), the (prob i j))) js"
    and r3: "fl_soma rd t0 (map (\<lambda>j. the (prob i j)) js) = Some t1" by auto
  have fresh: "\<forall>i'\<in>set is. \<forall>j\<in>set js. (i', j) \<notin> fst ` set d1"
    unfolding r2 using Cons.prems(2,4) by (force simp: image_iff)
  from Cons.IH[OF rest _ Cons.prems(3) fresh] Cons.prems(2)
  have i1: "\<forall>c\<in>set (List.product is js). prob (fst c) (snd c) \<noteq> None"
    and i2: "d' = d1 @ map (\<lambda>c. (c, the (prob (fst c) (snd c)))) (List.product is js)"
    and i3: "fl_soma rd t1 (map (\<lambda>c. the (prob (fst c) (snd c))) (List.product is js)) = Some t'"
    by auto
  show ?case
    using r1 r2 r3 i1 i2 i3 by (auto simp: fl_soma_append comp_def)
qed

lemma acumular_fl_Some:
  assumes "acumular_fl rd prob N = Some (d, t)"
  shows "(\<forall>c\<in>set (celulas N). prob (fst c) (snd c) \<noteq> None) \<and>
         d = map (\<lambda>c. (c, the (prob (fst c) (snd c)))) (celulas N) \<and>
         fl_soma rd 0 (map snd d) = Some t"
proof -
  from para_cada_grade_fl[where prob = prob and rd = rd, OF assms[unfolded acumular_fl_def]]
  have "(\<forall>c\<in>set (List.product [0..N] [0..N]). prob (fst c) (snd c) \<noteq> None) \<and>
         d = [] @ map (\<lambda>c. (c, the (prob (fst c) (snd c)))) (List.product [0..N] [0..N]) \<and>
         fl_soma rd 0 (map (\<lambda>c. the (prob (fst c) (snd c))) (List.product [0..N] [0..N])) = Some t"
    by simp
  then show ?thesis by (simp add: celulas_def comp_def)
qed

lemma binary64D:
  assumes "binary64 rd"
  shows "rd 0 = Some 0" "rd 1 = Some 1"
    "\<And>x y. rd x = Some y \<Longrightarrow> rd y = Some y"
    "\<And>x x' y y'. x \<le> x' \<Longrightarrow> rd x = Some y \<Longrightarrow> rd x' = Some y' \<Longrightarrow> y \<le> y'"
    "\<And>x y z. rd x = Some x \<Longrightarrow> rd y = Some y \<Longrightarrow> rd (x + y) = Some z \<Longrightarrow>
        \<bar>z - (x + y)\<bar> \<le> u64 * \<bar>x + y\<bar>"
    "\<And>x y. rd x = Some y \<Longrightarrow> \<bar>y - x\<bar> \<le> u64 * \<bar>x\<bar> + eta64"
  using assms unfolding binary64_def by blast+

lemma u64_range: "0 \<le> u64" "u64 \<le> 1"
  by (simp_all add: u64_def)

lemma fl_soma_bounds:
  assumes "binary64 rd" "rd t0 = Some t0" "0 \<le> t0" "\<forall>v\<in>set vs. 0 \<le> v \<and> rd v = Some v"
    "fl_soma rd t0 vs = Some t"
  shows "rd t = Some t \<and> t0 \<le> t \<and> (\<forall>v\<in>set vs. v \<le> t) \<and>
         (1 - u64) ^ length vs * (t0 + sum_list vs) \<le> t \<and>
         t \<le> (1 + u64) ^ length vs * (t0 + sum_list vs)"
  using assms(2-)
proof (induction vs arbitrary: t0)
  case Nil
  then show ?case by simp
next
  case (Cons v vs)
  from Cons.prems(4) obtain t1 where t1: "rd (t0 + v) = Some t1" and rest: "fl_soma rd t1 vs = Some t"
    by (auto simp: fl_add_def split: option.splits)
  have v: "0 \<le> v" "rd v = Some v" using Cons.prems(3) by auto
  have f1: "rd t1 = Some t1" using binary64D(3)[OF assms(1) t1] .
  have ge0: "t0 \<le> t1" using binary64D(4)[OF assms(1) _ Cons.prems(1) t1] v(1) by simp
  have gev: "v \<le> t1" using binary64D(4)[OF assms(1) _ v(2) t1] Cons.prems(2) by simp
  have err: "\<bar>t1 - (t0 + v)\<bar> \<le> u64 * (t0 + v)"
    using binary64D(5)[OF assms(1) Cons.prems(1) v(2) t1] Cons.prems(2) v(1) by simp
  have t1nn: "0 \<le> t1" using ge0 Cons.prems(2) by simp
  have vs: "\<forall>v\<in>set vs. 0 \<le> v \<and> rd v = Some v" using Cons.prems(3) by simp
  from Cons.IH[OF f1 t1nn vs rest]
  have ih: "rd t = Some t" "t1 \<le> t" "\<forall>v\<in>set vs. v \<le> t"
    "(1 - u64) ^ length vs * (t1 + sum_list vs) \<le> t"
    "t \<le> (1 + u64) ^ length vs * (t1 + sum_list vs)" by auto
  have snn: "0 \<le> sum_list vs" using vs by (intro sum_list_nonneg) auto
  have lo: "(1 - u64) * (t0 + v + sum_list vs) \<le> t1 + sum_list vs"
  proof -
    have "(1 - u64) * (t0 + v) \<le> t1" using err by (simp add: abs_le_iff algebra_simps)
    moreover have "(1 - u64) * sum_list vs \<le> sum_list vs"
      using snn u64_range by (simp add: mult_left_le_one_le)
    ultimately show ?thesis by (simp add: algebra_simps)
  qed
  have hi: "t1 + sum_list vs \<le> (1 + u64) * (t0 + v + sum_list vs)"
  proof -
    have "t1 \<le> (1 + u64) * (t0 + v)" using err by (simp add: abs_le_iff algebra_simps)
    moreover have "sum_list vs \<le> (1 + u64) * sum_list vs"
      using snn u64_range by (simp add: algebra_simps)
    ultimately show ?thesis by (simp add: algebra_simps)
  qed
  have "(1 - u64) ^ length (v # vs) * (t0 + sum_list (v # vs))
        = (1 - u64) ^ length vs * ((1 - u64) * (t0 + v + sum_list vs))"
    by (simp add: algebra_simps)
  also have "\<dots> \<le> (1 - u64) ^ length vs * (t1 + sum_list vs)"
    using lo u64_range by (intro mult_left_mono) auto
  also have "\<dots> \<le> t" by (rule ih(4))
  finally have low: "(1 - u64) ^ length (v # vs) * (t0 + sum_list (v # vs)) \<le> t" .
  have "t \<le> (1 + u64) ^ length vs * (t1 + sum_list vs)" by (rule ih(5))
  also have "\<dots> \<le> (1 + u64) ^ length vs * ((1 + u64) * (t0 + v + sum_list vs))"
    using hi u64_range by (intro mult_left_mono) auto
  also have "\<dots> = (1 + u64) ^ length (v # vs) * (t0 + sum_list (v # vs))"
    by (simp add: algebra_simps)
  finally have high: "t \<le> (1 + u64) ^ length (v # vs) * (t0 + sum_list (v # vs))" .
  show ?case
    using ih(1,2,3) ge0 gev low high by auto
qed

lemma normalizar_fl_Some:
  "normalizar_fl rd d t = Some d' \<Longrightarrow>
   list_all2 (\<lambda>x y. fst y = fst x \<and> fl_div rd (snd x) t = Some (snd y)) d d'"
proof (induction d arbitrary: d')
  case Nil
  then show ?case by simp
next
  case (Cons x d)
  obtain k v where x: "x = (k, v)" by (cases x)
  from Cons.prems obtain q d1 where "fl_div rd v t = Some q" "normalizar_fl rd d t = Some d1"
    "d' = (k, q) # d1"
    by (auto simp: x split: option.splits)
  with Cons.IH[of d1] show ?case by (simp add: x)
qed

lemma quociente_em_0_1:
  assumes "binary64 rd" "0 \<le> v" "v \<le> t" "fl_div rd v t = Some q"
  shows "0 \<le> q \<and> q \<le> 1"
proof -
  from assms(4) have t0: "t \<noteq> 0" and q: "rd (v / t) = Some q"
    by (auto simp: fl_div_def split: if_splits)
  have tp: "0 < t" using t0 assms(2,3) by simp
  have "0 \<le> v / t" "v / t \<le> 1" using tp assms(2,3) by simp_all
  then show ?thesis
    using binary64D(4)[OF assms(1) _ binary64D(1)[OF assms(1)] q]
      binary64D(4)[OF assms(1) _ q binary64D(2)[OF assms(1)]] by simp
qed

lemma list_all2_preimagem:
  "list_all2 R xs ys \<Longrightarrow> y \<in> set ys \<Longrightarrow> \<exists>x\<in>set xs. R x y"
  by (induction rule: list_all2_induct) auto

lemma resultado_em_0_1:
  assumes B: "binary64 rd"
    and V: "\<And>i j v. prob i j = Some v \<Longrightarrow> 0 \<le> v \<and> rd v = Some v"
    and A: "acumular_fl rd prob N = Some (raw, t)"
    and Nz: "normalizar_fl rd raw t = Some d"
  shows "\<forall>(c, q)\<in>set d. 0 \<le> q \<and> q \<le> 1"
proof -
  from acumular_fl_Some[OF A]
  have some: "\<forall>c\<in>set (celulas N). prob (fst c) (snd c) \<noteq> None"
    and raw: "raw = map (\<lambda>c. (c, the (prob (fst c) (snd c)))) (celulas N)"
    and sum: "fl_soma rd 0 (map snd raw) = Some t" by auto
  have vals: "\<forall>v\<in>set (map snd raw). 0 \<le> v \<and> rd v = Some v"
    unfolding raw using some V by (auto simp: comp_def)
  from fl_soma_bounds[OF B binary64D(1)[OF B] _ vals sum]
  have le: "\<forall>v\<in>set (map snd raw). v \<le> t" by simp
  have "0 \<le> snd y \<and> snd y \<le> 1" if "y \<in> set d" for y
  proof -
    from list_all2_preimagem[OF normalizar_fl_Some[OF Nz] that]
    obtain x where x: "x \<in> set raw" "fl_div rd (snd x) t = Some (snd y)" by auto
    have "0 \<le> snd x" "snd x \<le> t" using x(1) vals le by auto
    from quociente_em_0_1[OF B this x(2)] show ?thesis .
  qed
  then show ?thesis by auto
qed

lemma rd_nonneg:
  assumes "binary64 rd" "0 \<le> x" "rd x = Some y"
  shows "0 \<le> y"
  using binary64D(4)[OF assms(1) assms(2) binary64D(1)[OF assms(1)] assms(3)] .

lemma prob_poisson_fl_valor:
  assumes "binary64 rd" "pmf_float rd pmf_f" "prob_poisson_fl rd pmf_f a b i j = Some v"
  shows "0 \<le> v \<and> rd v = Some v"
proof -
  from assms(3) obtain p q where p: "pmf_f i a = Some p" and q: "pmf_f j b = Some q"
    and v: "rd (p * q) = Some v"
    by (auto simp: prob_poisson_fl_def fl_mul_def split: option.splits)
  have "0 \<le> p" "0 \<le> q" using assms(2) p q by (auto simp: pmf_float_def)
  then have "0 \<le> p * q" by simp
  from rd_nonneg[OF assms(1) this v] binary64D(3)[OF assms(1) v] show ?thesis by simp
qed

lemma prob_dixon_coles_fl_valor:
  assumes "binary64 rd" "pmf_float rd pmf_f" "fatores_nao_negativos rd a b rho"
    "prob_dixon_coles_fl rd pmf_f a b rho i j = Some v"
  shows "0 \<le> v \<and> rd v = Some v"
proof -
  from assms(4) obtain p q m t where p: "pmf_f i a = Some p" and q: "pmf_f j b = Some q"
    and m: "rd (p * q) = Some m" and t: "tau_fl rd i j a b rho = Some t"
    and v: "rd (m * t) = Some v"
    by (auto simp: prob_dixon_coles_fl_def fl_mul_def split: option.splits)
  have "0 \<le> p" "0 \<le> q" using assms(2) p q by (auto simp: pmf_float_def)
  then have "0 \<le> p * q" by simp
  from rd_nonneg[OF assms(1) this m] have "0 \<le> m" .
  moreover have "0 \<le> t" using assms(3) t by (auto simp: fatores_nao_negativos_def)
  ultimately have "0 \<le> m * t" by simp
  from rd_nonneg[OF assms(1) this v] binary64D(3)[OF assms(1) v] show ?thesis by simp
qed

text \<open>
  The rounding that changes nothing satisfies the laws, and at it the
  float-explicit builders are the builders in exact arithmetic.
\<close>

lemma binary64_exato: "binary64 Some"
  by (simp add: binary64_def u64_def eta64_def)

lemma pmf_float_exato: "pmf_float Some poisson_pmf"
  by (auto simp: pmf_float_def poisson_pmf_def split: if_splits)

lemma tau_fl_exato: "tau_fl Some i j a b rho = Some (tau i j a b rho)"
  by (simp add: tau_fl_def tau_def fl_mul_def fl_add_def fl_sub_def)

lemma prob_fl_exato:
  "prob_poisson_fl Some poisson_pmf a b = prob_poisson a b"
  "prob_dixon_coles_fl Some poisson_pmf a b rho = prob_dixon_coles a b rho"
  by (intro ext; simp add: prob_poisson_fl_def prob_poisson_def prob_dixon_coles_fl_def
      prob_dixon_coles_def fl_mul_def tau_fl_exato split: option.splits)+

lemma fl_exato:
  "fl_add Some = (\<lambda>x y. Some (x + y))" "fl_mul Some = (\<lambda>x y. Some (x * y))"
  "fl_div Some = np_div"
  by (intro ext; simp add: fl_add_def fl_mul_def fl_div_def np_div_def)+

lemma acumular_fl_exato: "acumular_fl Some = acumular"
  unfolding acumular_fl_def acumular_def fl_exato option.case by (rule refl)

lemma normalizar_fl_exato: "normalizar_fl Some = normalizar"
proof (intro ext)
  fix d t
  show "normalizar_fl Some d t = normalizar d t"
    by (induction d) (auto simp: fl_exato split: option.splits)
qed

lemma builders_fl_exato:
  "calcular_probabilidades_poisson_fl Some poisson_pmf a b N = calcular_probabilidades_poisson a b N"
  "calcular_probabilidades_dixon_coles_fl Some poisson_pmf a b rho N =
     calcular_probabilidades_dixon_coles a b rho N"
  unfolding calcular_probabilidades_poisson_fl_def calcular_probabilidades_poisson_def
      calcular_probabilidades_dixon_coles_fl_def calcular_probabilidades_dixon_coles_def
      prob_fl_exato acumular_fl_exato normalizar_fl_exato
  by (rule refl)+

lemma fatores_exato:
  assumes "0 \<le> 1 - a * b * rho" "0 \<le> 1 + a * rho" "0 \<le> 1 + b * rho" "0 \<le> 1 - rho"
  shows "fatores_nao_negativos Some a b rho"
  using tau_nonneg[OF assms] by (simp add: fatores_nao_negativos_def tau_fl_exato)

text \<open>
  C8 (amended). In \<^verbatim>\<open>float64\<close> arithmetic, what the Poisson builder returns is
  either not finite (\<open>nan\<close> values: the accumulated total is zero, as when every
  product underflows at very large rates, or an operation overflowed) or a
  dictionary whose probabilities all lie in \<open>[0, 1]\<close>. The Dixon-Coles builder
  does not clamp: the same holds for it when \<open>rho\<close> keeps the four factors
  \<open>\<tau>(0,0)\<close>, \<open>\<tau>(0,1)\<close>, \<open>\<tau>(1,0)\<close>, \<open>\<tau>(1,1)\<close>, as computed, non-negative.
\<close>

theorem probabilidades_em_0_1:
  assumes "binary64 rd" "pmf_float rd pmf_f"
  shows "(calcular_probabilidades_poisson_fl rd pmf_f a b N = Inl NaN \<or>
          (\<exists>d. calcular_probabilidades_poisson_fl rd pmf_f a b N = Inr d \<and>
               (\<forall>(c, p)\<in>set d. 0 \<le> p \<and> p \<le> 1))) \<and>
         (fatores_nao_negativos rd a b rho \<longrightarrow>
          calcular_probabilidades_dixon_coles_fl rd pmf_f a b rho N = Inl NaN \<or>
          (\<exists>d. calcular_probabilidades_dixon_coles_fl rd pmf_f a b rho N = Inr d \<and>
               (\<forall>(c, p)\<in>set d. 0 \<le> p \<and> p \<le> 1)))"
proof (intro conjI impI)
  show "calcular_probabilidades_poisson_fl rd pmf_f a b N = Inl NaN \<or>
          (\<exists>d. calcular_probabilidades_poisson_fl rd pmf_f a b N = Inr d \<and>
               (\<forall>(c, p)\<in>set d. 0 \<le> p \<and> p \<le> 1))"
  proof (cases "acumular_fl rd (prob_poisson_fl rd pmf_f a b) N")
    case None
    then show ?thesis by (simp add: calcular_probabilidades_poisson_fl_def)
  next
    case (Some x)
    obtain raw t where x: "x = (raw, t)" by (cases x)
    show ?thesis
    proof (cases "normalizar_fl rd raw t")
      case None
      with Some x show ?thesis by (simp add: calcular_probabilidades_poisson_fl_def)
    next
      case d: (Some d)
      have "\<forall>(c, q)\<in>set d. 0 \<le> q \<and> q \<le> 1"
        using resultado_em_0_1[OF assms(1) _ Some[unfolded x] d]
          prob_poisson_fl_valor[OF assms] by blast
      with Some x d show ?thesis
        by (simp add: calcular_probabilidades_poisson_fl_def ordenar_def)
    qed
  qed
next
  assume f: "fatores_nao_negativos rd a b rho"
  show "calcular_probabilidades_dixon_coles_fl rd pmf_f a b rho N = Inl NaN \<or>
          (\<exists>d. calcular_probabilidades_dixon_coles_fl rd pmf_f a b rho N = Inr d \<and>
               (\<forall>(c, p)\<in>set d. 0 \<le> p \<and> p \<le> 1))"
  proof (cases "acumular_fl rd (prob_dixon_coles_fl rd pmf_f a b rho) N")
    case None
    then show ?thesis by (simp add: calcular_probabilidades_dixon_coles_fl_def)
  next
    case (Some x)
    obtain raw t where x: "x = (raw, t)" by (cases x)
    show ?thesis
    proof (cases "normalizar_fl rd raw t")
      case None
      with Some x show ?thesis by (simp add: calcular_probabilidades_dixon_coles_fl_def)
    next
      case d: (Some d)
      have "\<forall>(c, q)\<in>set d. 0 \<le> q \<and> q \<le> 1"
        using resultado_em_0_1[OF assms(1) _ Some[unfolded x] d]
          prob_dixon_coles_fl_valor[OF assms f] by blast
      with Some x d show ?thesis
        by (simp add: calcular_probabilidades_dixon_coles_fl_def ordenar_def)
    qed
  qed
qed

text \<open>
  The theorem at the exact rounding, \<open>lambda_casa = lambda_visitante = 1\<close>,
  \<open>rho = -0.1\<close>, \<open>max_gols = 1\<close>, read at the cell \<open>(0, 0)\<close> of both
  dictionaries.
\<close>

theorem probabilidades_em_0_1_witness:
  "binary64 Some \<and> pmf_float Some poisson_pmf \<and> fatores_nao_negativos Some 1 1 (- 1 / 10) \<and>
   (\<exists>d p. calcular_probabilidades_poisson_fl Some poisson_pmf 1 1 1 = Inr d \<and>
          ((0, 0), p) \<in> set d \<and> 0 \<le> p \<and> p \<le> 1) \<and>
   (\<exists>d p. calcular_probabilidades_dixon_coles_fl Some poisson_pmf 1 1 (- 1 / 10) 1 = Inr d \<and>
          ((0, 0), p) \<in> set d \<and> 0 \<le> p \<and> p \<le> 1)"
proof -
  have f: "fatores_nao_negativos Some 1 1 (- 1 / 10)"
    by (intro fatores_exato) simp_all
  have nz: "massa_total (massa_dixon_coles 1 1 (- 1 / 10)) 1 \<noteq> 0"
    by (intro total_dixon_coles_nonzero) simp_all
  have p: "((0, 0), massa_poisson 1 1 (0, 0) / massa_total (massa_poisson 1 1) 1)
             \<in> set (ordenar (normalizada (massa_poisson 1 1) 1))"
    by (simp add: ordenar_def normalizada_def celulas_1)
  have d: "((0, 0), massa_dixon_coles 1 1 (- 1 / 10) (0, 0) / massa_total (massa_dixon_coles 1 1 (- 1 / 10)) 1)
             \<in> set (ordenar (normalizada (massa_dixon_coles 1 1 (- 1 / 10)) 1))"
    by (simp add: ordenar_def normalizada_def celulas_1)
  from probabilidades_em_0_1[OF binary64_exato pmf_float_exato, of 1 1 1 "- 1 / 10"] f p d nz
  show ?thesis
    by (simp add: binary64_exato pmf_float_exato builders_fl_exato poisson_result
        dixon_coles_result) blast
qed

subsection \<open>Normalization in float64 arithmetic\<close>












subsection \<open>Order of the returned items\<close>












subsection \<open>Invalid parameters\<close>

lemma builders_empty:
  "N < 0 \<Longrightarrow> calcular_probabilidades_poisson a b N = Inr []"
  "N < 0 \<Longrightarrow> calcular_probabilidades_dixon_coles a b rho N = Inr []"
  by (simp_all add: calcular_probabilidades_poisson_def calcular_probabilidades_dixon_coles_def
      acumular_def ordenar_def)

lemma acumular_nan:
  assumes "0 \<le> N" "prob 0 0 = None"
  shows "acumular prob N = None"
  using assms by (simp add: acumular_def upto_rec1[of 0 N])

lemma builders_nan:
  assumes "0 \<le> N" "a < 0 \<or> b < 0"
  shows "calcular_probabilidades_poisson a b N = Inl NaN"
    "calcular_probabilidades_dixon_coles a b rho N = Inl NaN"
proof -
  have "prob_poisson a b 0 0 = None" "prob_dixon_coles a b rho 0 0 = None"
    using assms(2) by (auto simp: prob_poisson_def prob_dixon_coles_def poisson_pmf_def)
  then show "calcular_probabilidades_poisson a b N = Inl NaN"
    "calcular_probabilidades_dixon_coles a b rho N = Inl NaN"
    using assms(1)
    by (simp_all add: calcular_probabilidades_poisson_def calcular_probabilidades_dixon_coles_def
        acumular_nan)
qed

lemma builders_falha:
  "calcular_probabilidades_poisson a b N = Inl e \<Longrightarrow> e = NaN"
  "calcular_probabilidades_dixon_coles a b rho N = Inl e \<Longrightarrow> e = NaN"
  by (auto simp: calcular_probabilidades_poisson_def calcular_probabilidades_dixon_coles_def
      split: option.splits prod.splits)

lemma builders_not_invalid:
  "calcular_probabilidades_poisson a b N \<noteq> Inl InvalidParameter"
  "calcular_probabilidades_dixon_coles a b rho N \<noteq> Inl InvalidParameter"
  by (simp_all add: calcular_probabilidades_poisson_def calcular_probabilidades_dixon_coles_def
      split: option.splits prod.splits)

lemma choice_falha: "fst (choice a n p g) = Inl e \<Longrightarrow> e = ValueError"
  by (auto simp: choice_def Let_def split: if_splits prod.splits)

lemma choice_negative: "n < 0 \<Longrightarrow> fst (choice a n p g) = Inl ValueError"
  by (simp add: choice_def)

lemma contar_falha: "fst (contar ps rs c g) = Inl e \<Longrightarrow> e = IndexError"
  by (induction ps rs c g rule: contar.induct) (auto simp: Let_def split: if_splits)

lemma simular_not_invalid:
  "fst (simular_monte_carlo a b n rho dc g) \<noteq> Inl InvalidParameter"
proof
  assume h: "fst (simular_monte_carlo a b n rho dc g) = Inl InvalidParameter"
  define r where "r = (if dc then calcular_probabilidades_dixon_coles a b rho 5
                       else calcular_probabilidades_poisson a b 5)"
  have r: "r \<noteq> Inl InvalidParameter"
    using builders_not_invalid(1)[of a b 5] builders_not_invalid(2)[of a b rho 5]
    by (simp add: r_def)
  show False
  proof (cases r)
    case (Inl e)
    with h r show False by (simp add: simular_monte_carlo_def flip: r_def split: if_splits)
  next
    case (Inr d)
    show False
    proof (cases "choice (length (map fst d)) n (map snd d) g")
      case (Pair x g')
      show False
      proof (cases x)
        case (Inl e)
        with Pair choice_falha[of "length (map fst d)" n "map snd d" g e] h Inr show False
          by (simp add: simular_monte_carlo_def Let_def flip: r_def)
      next
        case rs: (Inr rs)
        show False
        proof (cases "contar (map fst d) rs
                 \<lparr>vitoria_casa = 0, empate = 0, vitoria_visitante = 0,
                  over_2_5 = 0, btts = 0, gol_1_tempo = 0\<rparr> g'")
          case c: (Pair y g'')
          show False
          proof (cases y)
            case (Inl e)
            with c have "fst (contar (map fst d) rs
                 \<lparr>vitoria_casa = 0, empate = 0, vitoria_visitante = 0,
                  over_2_5 = 0, btts = 0, gol_1_tempo = 0\<rparr> g') = Inl e" by simp
            from contar_falha[OF this] Inl c h \<open>r = Inr d\<close> rs Pair show False
              by (simp add: simular_monte_carlo_def Let_def flip: r_def)
          next
            case (Inr cnt)
            with c h \<open>r = Inr d\<close> rs Pair show False
              by (simp add: simular_monte_carlo_def Let_def flip: r_def split: if_splits)
          qed
        qed
      qed
    qed
  qed
qed

lemma simular_negative:
  assumes "n < 0"
  shows "fst (simular_monte_carlo a b n rho dc g) = Inl ValueError"
proof -
  define r where "r = (if dc then calcular_probabilidades_dixon_coles a b rho 5
                       else calcular_probabilidades_poisson a b 5)"
  show ?thesis
  proof (cases r)
    case (Inl e)
    then have "e = NaN"
      using builders_falha(1)[of a b 5 e] builders_falha(2)[of a b rho 5 e]
      by (simp add: r_def split: if_splits)
    with Inl show ?thesis by (simp add: simular_monte_carlo_def flip: r_def)
  next
    case (Inr d)
    obtain x g' where c: "choice (length (map fst d)) n (map snd d) g = (x, g')"
      by (cases "choice (length (map fst d)) n (map snd d) g")
    with choice_negative[OF assms, of "length (map fst d)" "map snd d" g]
    have "x = Inl ValueError" by simp
    with c Inr show ?thesis by (simp add: simular_monte_carlo_def Let_def flip: r_def)
  qed
qed

subsection \<open>The simulator and the generator\<close>

lemma contar_cong:
  assumes "\<forall>k<length rs. g1 k = g2 k"
  shows "fst (contar ps rs c g1) = fst (contar ps rs c g2)"
  using assms
proof (induction rs arbitrary: c g1 g2)
  case Nil
  then show ?case by simp
next
  case (Cons idx rs)
  have 0: "g1 0 = g2 0" using Cons.prems by auto
  have "\<forall>k<length rs. (\<lambda>k. g1 (Suc k)) k = (\<lambda>k. g2 (Suc k)) k"
    using Cons.prems by auto
  from Cons.IH[OF this] 0 show ?case
    by (simp add: Let_def np_random_def)
qed

lemma choice_cases:
  obtains (falha) "\<And>g. choice a n p g = (Inl ValueError, g)"
  | (amostra) cdf where "0 \<le> n"
      "\<And>g. choice a n p g = (Inr (map (searchsorted_right cdf) (map g [0..<nat n])), (\<lambda>k. g (nat n + k)))"
proof (cases "(a = 0 \<and> n \<noteq> 0) \<or> length p \<noteq> a \<or> (\<exists>x\<in>set p. x < 0) \<or> \<bar>sum_list p - 1\<bar> > atol \<or> n < 0")
  case True
  then have "choice a n p g = (Inl ValueError, g)" for g
    by (auto simp: choice_def)
  then show ?thesis by (rule falha)
next
  case False
  then have "choice a n p g = (Inr (map (searchsorted_right (map (\<lambda>c. c / last (cumsum p)) (cumsum p)))
                 (map g [0..<nat n])), (\<lambda>k. g (nat n + k)))" for g
    by (auto simp: choice_def Let_def np_random_sample_def)
  moreover have "0 \<le> n" using False by simp
  ultimately show ?thesis by (rule amostra[rotated])
qed

text \<open>
  The distribution the simulator samples from when called as
  \<^verbatim>\<open>simular_monte_carlo(1, 1, n_simulacoes=1)\<close>, with the defaults \<open>rho = -0.1\<close>
  and \<open>usar_dixon_coles = True\<close>, and the call itself in terms of the
  generator.
\<close>

lemma celulas_5: "celulas 5 = List.product [0,1,2,3,4,5] [0,1,2,3,4,5]"
  by (simp add: celulas_def upto.simps)

lemma total_1_1_5: "massa_total (massa_dixon_coles 1 1 (- (1 / 10))) 5 = 26569 / 3600 * (exp (- 1) * exp (- 1))"
  by (simp add: total_dixon_coles total_poisson_factor upto.simps pmf_def fact_numeral)

lemma normalizada_1_1_5:
  "normalizada (massa_dixon_coles 1 1 (- (1 / 10))) 5 =
     [((0,0), 3960/26569),
      ((0,1), 3240/26569),
      ((0,2), 1800/26569),
      ((0,3), 600/26569),
      ((0,4), 150/26569),
      ((0,5), 30/26569),
      ((1,0), 3240/26569),
      ((1,1), 3960/26569),
      ((1,2), 1800/26569),
      ((1,3), 600/26569),
      ((1,4), 150/26569),
      ((1,5), 30/26569),
      ((2,0), 1800/26569),
      ((2,1), 1800/26569),
      ((2,2), 900/26569),
      ((2,3), 300/26569),
      ((2,4), 75/26569),
      ((2,5), 15/26569),
      ((3,0), 600/26569),
      ((3,1), 600/26569),
      ((3,2), 300/26569),
      ((3,3), 100/26569),
      ((3,4), 25/26569),
      ((3,5), 5/26569),
      ((4,0), 150/26569),
      ((4,1), 150/26569),
      ((4,2), 75/26569),
      ((4,3), 25/26569),
      ((4,4), 25/106276),
      ((4,5), 5/106276),
      ((5,0), 30/26569),
      ((5,1), 30/26569),
      ((5,2), 15/26569),
      ((5,3), 5/26569),
      ((5,4), 5/106276),
      ((5,5), 1/106276)]"
proof -
  have e: "exp (- 1 :: real) \<noteq> 0" by simp
  show ?thesis
    unfolding normalizada_def total_1_1_5 celulas_5
    using e by (simp add: massa_dixon_coles_def pmf_def tau_def fact_numeral)
qed

lemma dixon_coles_1_1_5:
  "calcular_probabilidades_dixon_coles 1 1 (- (1 / 10)) 5 =
     Inr [((0,0), 3960/26569),
      ((1,1), 3960/26569),
      ((0,1), 3240/26569),
      ((1,0), 3240/26569),
      ((0,2), 1800/26569),
      ((1,2), 1800/26569),
      ((2,0), 1800/26569),
      ((2,1), 1800/26569),
      ((2,2), 900/26569),
      ((0,3), 600/26569),
      ((1,3), 600/26569),
      ((3,0), 600/26569),
      ((3,1), 600/26569),
      ((2,3), 300/26569),
      ((3,2), 300/26569),
      ((0,4), 150/26569),
      ((1,4), 150/26569),
      ((4,0), 150/26569),
      ((4,1), 150/26569),
      ((3,3), 100/26569),
      ((2,4), 75/26569),
      ((4,2), 75/26569),
      ((0,5), 30/26569),
      ((1,5), 30/26569),
      ((5,0), 30/26569),
      ((5,1), 30/26569),
      ((3,4), 25/26569),
      ((4,3), 25/26569),
      ((2,5), 15/26569),
      ((5,2), 15/26569),
      ((4,4), 25/106276),
      ((3,5), 5/26569),
      ((5,3), 5/26569),
      ((4,5), 5/106276),
      ((5,4), 5/106276),
      ((5,5), 1/106276)]"
proof -
  have "massa_total (massa_dixon_coles 1 1 (- (1 / 10))) 5 \<noteq> 0"
    unfolding total_1_1_5 by simp
  then show ?thesis
    by (simp add: dixon_coles_result normalizada_1_1_5 ordenar_def)
qed

lemma simular_1_1_1:
  "simular_monte_carlo 1 1 1 (- (1 / 10)) True g =
     (case contar (map fst [((0,0), 3960/26569),
      ((1,1), 3960/26569),
      ((0,1), 3240/26569),
      ((1,0), 3240/26569),
      ((0,2), 1800/26569),
      ((1,2), 1800/26569),
      ((2,0), 1800/26569),
      ((2,1), 1800/26569),
      ((2,2), 900/26569),
      ((0,3), 600/26569),
      ((1,3), 600/26569),
      ((3,0), 600/26569),
      ((3,1), 600/26569),
      ((2,3), 300/26569),
      ((3,2), 300/26569),
      ((0,4), 150/26569),
      ((1,4), 150/26569),
      ((4,0), 150/26569),
      ((4,1), 150/26569),
      ((3,3), 100/26569),
      ((2,4), 75/26569),
      ((4,2), 75/26569),
      ((0,5), 30/26569),
      ((1,5), 30/26569),
      ((5,0), 30/26569),
      ((5,1), 30/26569),
      ((3,4), 25/26569),
      ((4,3), 25/26569),
      ((2,5), 15/26569),
      ((5,2), 15/26569),
      ((4,4), 25/106276),
      ((3,5), 5/26569),
      ((5,3), 5/26569),
      ((4,5), 5/106276),
      ((5,4), 5/106276),
      ((5,5), 1/106276)])
             [searchsorted_right (cumsum (map snd [((0,0), 3960/26569),
      ((1,1), 3960/26569),
      ((0,1), 3240/26569),
      ((1,0), 3240/26569),
      ((0,2), 1800/26569),
      ((1,2), 1800/26569),
      ((2,0), 1800/26569),
      ((2,1), 1800/26569),
      ((2,2), 900/26569),
      ((0,3), 600/26569),
      ((1,3), 600/26569),
      ((3,0), 600/26569),
      ((3,1), 600/26569),
      ((2,3), 300/26569),
      ((3,2), 300/26569),
      ((0,4), 150/26569),
      ((1,4), 150/26569),
      ((4,0), 150/26569),
      ((4,1), 150/26569),
      ((3,3), 100/26569),
      ((2,4), 75/26569),
      ((4,2), 75/26569),
      ((0,5), 30/26569),
      ((1,5), 30/26569),
      ((5,0), 30/26569),
      ((5,1), 30/26569),
      ((3,4), 25/26569),
      ((4,3), 25/26569),
      ((2,5), 15/26569),
      ((5,2), 15/26569),
      ((4,4), 25/106276),
      ((3,5), 5/26569),
      ((5,3), 5/26569),
      ((4,5), 5/106276),
      ((5,4), 5/106276),
      ((5,5), 1/106276)])) (g 0)]
             \<lparr>vitoria_casa = 0, empate = 0, vitoria_visitante = 0,
              over_2_5 = 0, btts = 0, gol_1_tempo = 0\<rparr> (\<lambda>k. g (Suc k)) of
        (Inl e, g') \<Rightarrow> (Inl e, g')
      | (Inr c, g') \<Rightarrow>
          (Inr [(''vitoria_casa'', real (vitoria_casa c)), (''empate'', real (empate c)),
                (''vitoria_visitante'', real (vitoria_visitante c)),
                (''over_2_5'', real (over_2_5 c)), (''btts'', real (btts c)),
                (''gol_1_tempo'', real (gol_1_tempo c))], g'))"
  by (simp add: simular_monte_carlo_def dixon_coles_1_1_5 choice_def atol_def cumsum_def
      np_random_sample_def Let_def)

lemma primeira_chamada:
  assumes "g 0 = 0"
  shows "simular_monte_carlo 1 1 1 (- (1 / 10)) True g =
     (Inr [(''vitoria_casa'', 0), (''empate'', 1), (''vitoria_visitante'', 0),
           (''over_2_5'', 0), (''btts'', 0), (''gol_1_tempo'', 0)], (\<lambda>k. g (Suc (Suc k))))"
  by (subst simular_1_1_1)
     (simp add: assms cumsum_def searchsorted_right_def np_random_def Let_def)

lemma segunda_chamada:
  assumes "g 0 = 4 / 10" "g (Suc 0) = 4 / 10"
  shows "fst (simular_monte_carlo 1 1 1 (- (1 / 10)) True g) =
     Inr [(''vitoria_casa'', 0), (''empate'', 0), (''vitoria_visitante'', 1),
          (''over_2_5'', 0), (''btts'', 0), (''gol_1_tempo'', 1)]"
  by (subst simular_1_1_1)
     (simp add: assms cumsum_def searchsorted_right_def np_random_def Let_def)

text \<open>
  C4, as the claim states it, fails: the simulator takes no randomness source,
  it draws from numpy's process-global generator, so identical parameters do not
  determine the result. Two calls in a row of
  \<^verbatim>\<open>simular_monte_carlo(1, 1, n_simulacoes=1)\<close>, the second starting from the
  generator state the first one left, return different results when the
  generator delivers \<open>0, 0, 0.4, 0.4\<close>: a draw \<open>0-0\<close>, then an away win \<open>0-1\<close>.
\<close>

theorem simulacao_counterexample:
  "fst (simular_monte_carlo 1 1 1 (- 1 / 10) True (\<lambda>k. if k < 2 then 0 else 4 / 10)) =
     Inr [(''vitoria_casa'', 0), (''empate'', 1), (''vitoria_visitante'', 0),
          (''over_2_5'', 0), (''btts'', 0), (''gol_1_tempo'', 0)] \<and>
   fst (simular_monte_carlo 1 1 1 (- 1 / 10) True
          (snd (simular_monte_carlo 1 1 1 (- 1 / 10) True (\<lambda>k. if k < 2 then 0 else 4 / 10)))) =
     Inr [(''vitoria_casa'', 0), (''empate'', 0), (''vitoria_visitante'', 1),
          (''over_2_5'', 0), (''btts'', 0), (''gol_1_tempo'', 1)]"
  by (simp add: primeira_chamada segunda_chamada)

text \<open>
  C4 (amended). The result of the simulator is determined by its parameters
  and by the \<open>2 * n_simulacoes\<close> variates it consumes from the process-global
  generator: two calls with identical parameters whose generator streams agree
  on these variates (as after seeding the global generator with the same seed
  before each call) return identical results.
\<close>

theorem simulacao_deterministica:
  assumes "\<forall>k. k < 2 * nat n \<longrightarrow> g1 k = g2 k"
  shows "fst (simular_monte_carlo a b n rho dc g1) = fst (simular_monte_carlo a b n rho dc g2)"
proof -
  define r where "r = (if dc then calcular_probabilidades_dixon_coles a b rho 5
                       else calcular_probabilidades_poisson a b 5)"
  show ?thesis
  proof (cases r)
    case (Inl e)
    then show ?thesis by (simp add: simular_monte_carlo_def flip: r_def)
  next
    case (Inr d)
    show ?thesis
    proof (cases "length (map fst d)" n "map snd d" rule: choice_cases)
      case falha
      with Inr show ?thesis by (simp add: simular_monte_carlo_def Let_def flip: r_def)
    next
      case (amostra cdf)
      have us: "map g1 [0..<nat n] = map g2 [0..<nat n]"
        using assms by simp
      define rs where "rs = map (searchsorted_right cdf) (map g1 [0..<nat n])"
      have len: "length rs = nat n" by (simp add: rs_def)
      have c1: "choice (length (map fst d)) n (map snd d) g1 = (Inr rs, (\<lambda>k. g1 (nat n + k)))"
        and c2: "choice (length (map fst d)) n (map snd d) g2 = (Inr rs, (\<lambda>k. g2 (nat n + k)))"
        using amostra(2) us by (simp_all add: rs_def)
      have "\<forall>k<length rs. (\<lambda>k. g1 (nat n + k)) k = (\<lambda>k. g2 (nat n + k)) k"
        using assms len by simp
      from contar_cong[OF this]
      have eq: "fst (contar (map fst d) rs c (\<lambda>k. g1 (nat n + k))) =
                fst (contar (map fst d) rs c (\<lambda>k. g2 (nat n + k)))" for c .
      show ?thesis
        using Inr c1 c2 eq
        by (simp add: simular_monte_carlo_def Let_def split_beta flip: r_def split: sum.splits)
    qed
  qed
qed

text \<open>
  The theorem for two streams that agree on the first two variates only, at
  \<open>n_simulacoes = 1\<close>.
\<close>

theorem simulacao_deterministica_witness:
  "fst (simular_monte_carlo 1 1 1 (- 1 / 10) True (\<lambda>k. if k < 2 then 0 else 4 / 10)) =
   fst (simular_monte_carlo 1 1 1 (- 1 / 10) True (\<lambda>k. 0))"
  using simulacao_deterministica[of 1 "\<lambda>k. if k < 2 then 0 else 4 / 10" "\<lambda>k. 0" 1 1 "- 1 / 10" True]
  by simp

subsection \<open>Calls with invalid parameters\<close>

lemma simular_zero_falha:
  "fst (simular_monte_carlo a b 0 rho dc g) = Inl ZeroDivisionError \<or>
   fst (simular_monte_carlo a b 0 rho dc g) = Inl ValueError"
proof -
  define r where "r = (if dc then calcular_probabilidades_dixon_coles a b rho 5
                       else calcular_probabilidades_poisson a b 5)"
  show ?thesis
  proof (cases r)
    case (Inl e)
    then have "e = NaN"
      using builders_falha(1)[of a b 5 e] builders_falha(2)[of a b rho 5 e]
      by (simp add: r_def split: if_splits)
    with Inl show ?thesis by (simp add: simular_monte_carlo_def flip: r_def)
  next
    case (Inr d)
    show ?thesis
    proof (cases "length (map fst d)" "0::int" "map snd d" rule: choice_cases)
      case falha
      with Inr show ?thesis by (simp add: simular_monte_carlo_def Let_def flip: r_def)
    next
      case (amostra cdf)
      with Inr show ?thesis by (simp add: simular_monte_carlo_def Let_def flip: r_def)
    qed
  qed
qed

lemma simular_1_1_0:
  "fst (simular_monte_carlo 1 1 0 (- (1 / 10)) True g) = Inl ZeroDivisionError"
  by (simp add: simular_monte_carlo_def dixon_coles_1_1_5 choice_def atol_def cumsum_def
      np_random_sample_def Let_def)

text \<open>
  C3, as the claim states it, fails: the code validates nothing and has no
  \<open>InvalidParameter\<close>. With \<open>max_gols = -1\<close> both loops of
  \<open>calcular_probabilidades_poisson\<close> run over an empty range and the call
  returns the empty dictionary.
\<close>

theorem sem_validacao_counterexample:
  "calcular_probabilidades_poisson 1 1 (- 1) = Inr [] \<and>
   calcular_probabilidades_poisson 1 1 (- 1) \<noteq> Inl InvalidParameter"
  by (simp add: builders_empty)

text \<open>
  C3 (amended). No operation checks its parameters, and none fails with
  \<open>InvalidParameter\<close>. With \<open>max_gols < 0\<close> both builders return the empty
  dictionary, whatever the rates. With \<open>max_gols \<ge> 0\<close> and a negative rate they
  return a dictionary of \<open>nan\<close> values (scipy's \<open>pmf\<close> at a negative rate). The
  simulator with \<open>n_simulacoes = 0\<close> returns no result: it raises
  \<open>ZeroDivisionError\<close> at its final divisions, unless \<^verbatim>\<open>np.random.choice\<close> has
  already refused the distribution with \<open>ValueError\<close>. With \<open>n_simulacoes < 0\<close>
  it fails with the \<open>ValueError\<close> of \<^verbatim>\<open>np.random.choice\<close>.
\<close>

theorem sem_validacao:
  "(N < 0 \<longrightarrow> calcular_probabilidades_poisson a b N = Inr [] \<and>
              calcular_probabilidades_dixon_coles a b rho N = Inr []) \<and>
   (0 \<le> N \<and> (a < 0 \<or> b < 0) \<longrightarrow> calcular_probabilidades_poisson a b N = Inl NaN \<and>
              calcular_probabilidades_dixon_coles a b rho N = Inl NaN) \<and>
   (n = 0 \<longrightarrow> fst (simular_monte_carlo a b n rho dc g) = Inl ZeroDivisionError \<or>
              fst (simular_monte_carlo a b n rho dc g) = Inl ValueError) \<and>
   (n < 0 \<longrightarrow> fst (simular_monte_carlo a b n rho dc g) = Inl ValueError) \<and>
   calcular_probabilidades_poisson a b N \<noteq> Inl InvalidParameter \<and>
   calcular_probabilidades_dixon_coles a b rho N \<noteq> Inl InvalidParameter \<and>
   fst (simular_monte_carlo a b n rho dc g) \<noteq> Inl InvalidParameter"
  using builders_empty(1)[of N a b] builders_empty(2)[of N a b rho]
    builders_nan(1)[of N a b] builders_nan(2)[of N a b rho]
    simular_zero_falha[of a b rho dc g] simular_negative[of n a b rho dc g]
    builders_not_invalid(1)[of a b N] builders_not_invalid(2)[of a b rho N]
    simular_not_invalid[of a b n rho dc g]
  by auto

text \<open>
  The theorem at \<open>max_gols = -1\<close>, at the rate \<open>-1\<close> on the default grid, and
  at \<open>n_simulacoes = 0\<close> and \<open>-1\<close> (at the rates \<open>1\<close> and \<open>1\<close> the call with
  \<open>n_simulacoes = 0\<close> ends in \<open>ZeroDivisionError\<close>).
\<close>

theorem sem_validacao_witness:
  "calcular_probabilidades_poisson 1 1 (- 1) = Inr [] \<and>
   calcular_probabilidades_dixon_coles 1 1 (- 1 / 10) (- 1) = Inr [] \<and>
   calcular_probabilidades_poisson (- 1) 1 5 = Inl NaN \<and>
   fst (simular_monte_carlo 1 1 0 (- 1 / 10) True (\<lambda>k. 0)) = Inl ZeroDivisionError \<and>
   fst (simular_monte_carlo 1 1 (- 1) (- 1 / 10) True (\<lambda>k. 0)) = Inl ValueError"
  using
    sem_validacao[where N = "- 1" and a = 1 and b = 1 and rho = "- 1 / 10" and n = 0
      and g = "\<lambda>k. 0" and dc = True]
    sem_validacao[where N = 5 and a = "- 1" and b = 1 and rho = "- 1 / 10" and n = "- 1"
      and g = "\<lambda>k. 0" and dc = True]
    sem_validacao[where N = 5 and a = 1 and b = 1 and rho = "- 1 / 10" and n = "- 1"
      and g = "\<lambda>k. 0" and dc = True]
    simular_1_1_0[of "\<lambda>k. 0"]
  by simp

subsection \<open>Kelly fraction and expected value\<close>

lemma kelly_edge_positive:
  fixes p b :: real
  assumes "0 \<le> p" "p \<le> 1" "b * p > 1 - p"
  shows "0 < b" "0 < p"
proof -
  have "0 < b * p" using assms by linarith
  then show "0 < b" using assms(1) by (simp add: zero_less_mult_iff)
  show "0 < p" using \<open>0 < b * p\<close> assms(1) by (cases "p = 0") auto
qed

lemma kelly_quotient_bounds:
  fixes p b :: real
  assumes "0 \<le> p" "p \<le> 1" "b * p > 1 - p"
  shows "0 < (b * p - (1 - p)) / b" "(b * p - (1 - p)) / b \<le> 1"
proof -
  have b: "0 < b" using kelly_edge_positive(1)[OF assms] .
  show "0 < (b * p - (1 - p)) / b" using b assms(3) by simp
  have "b * p - (1 - p) \<le> b * 1"
  proof -
    have "b * p \<le> b * 1" using b assms(2) by (intro mult_left_mono) auto
    then show ?thesis using assms(2) by linarith
  qed
  then show "(b * p - (1 - p)) / b \<le> 1" using b by (simp add: divide_le_eq)
qed

text \<open>
  C10. \<open>calcular_kelly\<close> is total on its intended domain: for a probability in
  \<open>[0, 1]\<close>, any price and a fraction in \<open>[0, 1]\<close>, the division by \<open>b = odd' - 1\<close>
  is only reached with \<open>b > 0\<close>, so the call never raises, and the value it
  returns lies in \<open>[0, 1]\<close>.
\<close>

theorem calcular_kelly_total:
  assumes "0 \<le> probabilidade" "probabilidade \<le> 1" "0 \<le> fracao" "fracao \<le> 1"
  shows "(\<exists>r. calcular_kelly probabilidade odd' fracao = Inr r \<and> 0 \<le> r \<and> r \<le> 1) \<and>
         ((odd' - 1) * probabilidade > 1 - probabilidade \<longrightarrow> 0 < odd' - 1)"
proof -
  have pos: "0 < odd' - 1" if "(odd' - 1) * probabilidade > 1 - probabilidade"
    using kelly_edge_positive(1)[OF assms(1,2) that] .
  have "\<exists>r. calcular_kelly probabilidade odd' fracao = Inr r \<and> 0 \<le> r \<and> r \<le> 1"
  proof (cases "(odd' - 1) * probabilidade > 1 - probabilidade")
    case False
    then show ?thesis by (simp add: calcular_kelly_def)
  next
    case True
    define k where "k = ((odd' - 1) * probabilidade - (1 - probabilidade)) / (odd' - 1)"
    have b: "odd' - 1 \<noteq> 0" using pos[OF True] by simp
    have k0: "0 < k" and k1: "k \<le> 1"
      using kelly_quotient_bounds[OF assms(1,2) True] by (auto simp: k_def)
    have "0 \<le> k * fracao" using k0 assms(3) by (intro mult_nonneg_nonneg) auto
    moreover have "k * fracao \<le> 1 * 1"
      using k0 k1 assms(3,4) by (intro mult_mono) auto
    moreover have "calcular_kelly probabilidade odd' fracao = Inr (k * fracao)"
      using True b by (simp add: calcular_kelly_def Let_def k_def)
    ultimately show ?thesis by simp
  qed
  with pos show ?thesis by blast
qed

theorem calcular_kelly_total_witness:
  "calcular_kelly (6 / 10) (25 / 10) 1 = Inr (1 / 3) \<and> (0::real) < 25 / 10 - 1"
proof -
  have h: "(0::real) \<le> 6 / 10" "(6 / 10 :: real) \<le> 1" "(0::real) \<le> 1" "(1::real) \<le> 1"
    by simp_all
  from calcular_kelly_total[OF h, of "25 / 10"]
  show ?thesis by (simp add: calcular_kelly_def Let_def)
qed

text \<open>
  C6, as the claim states it, fails in its last number: the Kelly expression
  at probability \<open>0.6\<close> and price \<open>2.5\<close> is \<open>(1.5 * 0.6 - 0.4) / 1.5 = 0.5 / 1.5\<close>,
  and that is what the code returns, not \<open>0.2 / 1.5\<close>.
\<close>

theorem calcular_kelly_exemplo_counterexample:
  "calcular_kelly (6 / 10) (25 / 10) 1 \<noteq> Inr ((2 / 10) / (15 / 10))"
  by (simp add: calcular_kelly_def Let_def)

text \<open>
  C6 (amended). \<open>calcular_valor_esperado(0.5, 2.0)\<close> is \<open>0\<close>;
  \<open>calcular_kelly(0.5, 2.0)\<close> is \<open>0\<close>; \<open>calcular_kelly(0.6, 2.5)\<close> is positive
  and equals \<open>((2.5 - 1) * 0.6 - 0.4) / (2.5 - 1) = 0.5 / 1.5 = 1/3\<close>.
\<close>

theorem calcular_kelly_exemplos:
  "calcular_valor_esperado (5 / 10) 2 = 0 \<and>
   calcular_kelly (5 / 10) 2 1 = Inr 0 \<and>
   calcular_kelly (6 / 10) (25 / 10) 1 = Inr (((25 / 10 - 1) * (6 / 10) - 4 / 10) / (25 / 10 - 1)) \<and>
   ((25 / 10 - 1) * (6 / 10) - 4 / 10) / (25 / 10 - 1) = ((5 / 10) / (15 / 10) :: real) \<and>
   (0::real) < (5 / 10) / (15 / 10)"
  by (simp add: calcular_valor_esperado_def calcular_kelly_def Let_def)

end
